theory Spec2Isabelle
  imports Complex_Main "HOL-Library.Multiset"
begin

section \<open>Errors\<close>

text \<open>
  The Python exceptions the modelled code can raise. \<open>RuntimeError\<close> is what torch raises
  for a shape it cannot use; its argument records which check of torch failed:
  \<^item> \<open>Invalid_shape\<close>: "shape '[...]' is invalid for input of size n" (view, reshape);
  \<^item> \<open>Ambiguous_shape\<close>: "cannot reshape tensor of 0 elements into shape [...] because the
    unspecified dimension size -1 can be any value and is ambiguous";
  \<^item> \<open>Invalid_dimension\<close>: "invalid shape dimension d" (a size below -1);
  \<^item> \<open>Only_one_inferred\<close>: "only one dimension can be inferred";
  \<^item> \<open>Size_mismatch\<close>: "The size of tensor a must match the size of tensor b" (copy_).
  \<open>IndexError\<close> is raised by indexing past the end (a module list, a tensor dimension),
  \<open>KeyError\<close> by \<open>dict.pop\<close> of an absent key without default.
\<close>

datatype runtime_error =
  Invalid_shape | Ambiguous_shape | Invalid_dimension | Only_one_inferred | Size_mismatch

datatype error = RuntimeError runtime_error | IndexError | KeyError

definition ebind :: "error + 'a \<Rightarrow> ('a \<Rightarrow> error + 'b) \<Rightarrow> error + 'b" where
  "ebind m f = (case m of Inl e \<Rightarrow> Inl e | Inr v \<Rightarrow> f v)"

section \<open>Tensors (the part of torch that the weight copy uses)\<close>

text \<open>
  A tensor is its size and its elements in row-major order. Every tensor of the model is
  held contiguous: an operation that torch performs by changing strides (transpose) is
  modelled by the contiguous tensor with the same elements at the same multi-indices.
  Torch keeps \<open>length (data t) = numel t\<close> for every tensor (\<open>wf_tensor\<close>).
  The element type \<open>'a\<close> is the dtype's set of bit patterns; source and target have the
  same dtype, so copying an element keeps it as it is.
\<close>

record 'a tensor =
  shape :: "nat list"
  data :: "'a list"

definition numel :: "'a tensor \<Rightarrow> nat" where
  "numel t = prod_list (shape t)"

definition wf_tensor :: "'a tensor \<Rightarrow> bool" where
  "wf_tensor t = (length (data t) = numel t)"

text \<open>Row-major flat index of a multi-index, and the multi-index of a flat index.\<close>

fun ravel :: "nat list \<Rightarrow> nat list \<Rightarrow> nat" where
  "ravel (s # ss) (i # is) = i * prod_list ss + ravel ss is"
| "ravel _ _ = 0"

fun unravel :: "nat list \<Rightarrow> nat \<Rightarrow> nat list" where
  "unravel [] n = []"
| "unravel (s # ss) n = (n div prod_list ss) # unravel ss (n mod prod_list ss)"

text \<open>
  \<open>t.size(d)\<close> for a dimension \<open>d \<ge> 0\<close>: IndexError ("Dimension out of range") when the
  tensor has no such dimension.
\<close>

definition size_dim :: "'a tensor \<Rightarrow> nat \<Rightarrow> error + nat" where
  "size_dim t d = (if d < length (shape t) then Inr (shape t ! d) else Inl IndexError)"

text \<open>
  torch's \<open>infer_size\<close>, used by \<open>view\<close> and \<open>reshape\<close>: one pass over the requested sizes
  multiplies the given ones (\<open>newsize\<close>) and remembers the position of a \<open>-1\<close>; then the
  sizes are accepted when \<open>numel = newsize\<close>, or when a \<open>-1\<close> is present, \<open>newsize > 0\<close> and
  \<open>newsize\<close> divides \<open>numel\<close>; an accepted \<open>-1\<close> with \<open>newsize = 0\<close> is refused as ambiguous.
\<close>

fun infer_scan :: "int list \<Rightarrow> nat \<Rightarrow> nat \<Rightarrow> nat option \<Rightarrow> error + (nat \<times> nat option)" where
  "infer_scan [] pos newsize infer_dim = Inr (newsize, infer_dim)"
| "infer_scan (s # ss) pos newsize infer_dim =
     (if s = -1 then
        (case infer_dim of
           Some _ \<Rightarrow> Inl (RuntimeError Only_one_inferred)
         | None \<Rightarrow> infer_scan ss (pos + 1) newsize (Some pos))
      else if 0 \<le> s then infer_scan ss (pos + 1) (newsize * nat s) infer_dim
      else Inl (RuntimeError Invalid_dimension))"

definition infer_size :: "int list \<Rightarrow> nat \<Rightarrow> error + nat list" where
  "infer_size shp n =
     (case infer_scan shp 0 1 None of
        Inl e \<Rightarrow> Inl e
      | Inr (newsize, infer_dim) \<Rightarrow>
          if n = newsize \<or> (infer_dim \<noteq> None \<and> 0 < newsize \<and> n mod newsize = 0) then
            (case infer_dim of
               None \<Rightarrow> Inr (map nat shp)
             | Some d \<Rightarrow>
                 if newsize = 0 then Inl (RuntimeError Ambiguous_shape)
                 else Inr ((map nat shp)[d := n div newsize]))
          else Inl (RuntimeError Invalid_shape))"

text \<open>\<open>t.view(*shp)\<close> of a contiguous tensor: the same elements under the inferred size.\<close>

definition view :: "'a tensor \<Rightarrow> int list \<Rightarrow> error + 'a tensor" where
  "view t shp = ebind (infer_size shp (numel t)) (\<lambda>s. Inr (t\<lparr>shape := s\<rparr>))"

text \<open>
  \<open>t.reshape(*shp)\<close>: the elements of \<open>t\<close> in the order of their multi-indices, under the
  inferred size. As every tensor of the model is held contiguous, this is the same data.
\<close>

definition reshape :: "'a tensor \<Rightarrow> int list \<Rightarrow> error + 'a tensor" where
  "reshape t shp = ebind (infer_size shp (numel t)) (\<lambda>s. Inr (t\<lparr>shape := s\<rparr>))"

text \<open>
  \<open>t.transpose(d0, d1)\<close>: sizes \<open>d0\<close> and \<open>d1\<close> are exchanged, and the element at a
  multi-index of the result is the element of \<open>t\<close> at the multi-index with entries \<open>d0\<close>
  and \<open>d1\<close> exchanged. IndexError when \<open>t\<close> has no such dimension.
\<close>

definition swap_dims :: "nat \<Rightarrow> nat \<Rightarrow> nat list \<Rightarrow> nat list" where
  "swap_dims d0 d1 xs = xs[d0 := xs ! d1, d1 := xs ! d0]"

definition transpose_dims :: "'a tensor \<Rightarrow> nat \<Rightarrow> nat \<Rightarrow> error + 'a tensor" where
  "transpose_dims t d0 d1 =
     (if d0 < length (shape t) \<and> d1 < length (shape t) then
        Inr \<lparr>shape = swap_dims d0 d1 (shape t),
             data = map (\<lambda>n. data t !
                      ravel (shape t) (swap_dims d0 d1 (unravel (swap_dims d0 d1 (shape t)) n)))
                    [0..<numel t]\<rparr>
      else Inl IndexError)"

text \<open>
  \<open>dst.copy_(src)\<close>: \<open>src\<close> is broadcast to the size of \<open>dst\<close> (sizes are aligned at the
  last dimension; a size of \<open>src\<close> must equal that of \<open>dst\<close> or be 1, and \<open>src\<close> must not
  have more dimensions than \<open>dst\<close>), else RuntimeError. \<open>dst\<close> keeps its size.
\<close>

definition broadcastable :: "nat list \<Rightarrow> nat list \<Rightarrow> bool" where
  "broadcastable src dst =
     (length src \<le> length dst \<and>
      list_all2 (\<lambda>s d. s = d \<or> s = 1) src (drop (length dst - length src) dst))"

definition expand_index :: "nat list \<Rightarrow> nat list \<Rightarrow> nat list" where
  "expand_index src idx =
     map2 (\<lambda>s i. if s = 1 then 0 else i) src (drop (length idx - length src) idx)"

definition copy_inplace :: "'a tensor \<Rightarrow> 'a tensor \<Rightarrow> error + 'a tensor" where
  "copy_inplace dst src =
     (if broadcastable (shape src) (shape dst) then
        Inr (dst\<lparr>data := map (\<lambda>n. data src !
                      ravel (shape src) (expand_index (shape src) (unravel (shape dst) n)))
                    [0..<numel dst]\<rparr>)
      else Inl (RuntimeError Size_mismatch))"

section \<open>The weight copy of \<open>_oss_hf_model\<close> (tests/models/hf/test_llama_hf.py)\<close>

text \<open>
  Lines 97-102 and 105-110, "adjust q, k":
  \<^verbatim>\<open>q.view(hf_config.nheads, -1, 2, q.size(1)).transpose(1, 2).reshape(*q.size())\<close>
\<close>

definition adjust :: "int \<Rightarrow> 'a tensor \<Rightarrow> error + 'a tensor" where
  "adjust nheads q =
     ebind (size_dim q 1) (\<lambda>c.
     ebind (view q [nheads, -1, 2, int c]) (\<lambda>v.
     ebind (transpose_dims v 1 2) (\<lambda>t.
     reshape t (map int (shape q)))))"


text \<open>
  The source model, \<open>hf_model\<close>: the tensors and the one field of \<open>hf_model.config\<close>
  (\<open>nheads\<close>, declared \<open>int\<close>) that the copy reads once the target is built. A layer is
  \<open>hf_model.decoder.model.layers[i]\<close>; its fields are named after the attribute paths
  (\<open>attn.query.weight\<close>, \<open>ff_sub_layer.wg.weight\<close>, \<open>ln.weight\<close>, ...).
\<close>

record 'a fms_layer =
  attn_query_weight :: "'a tensor"
  attn_key_weight :: "'a tensor"
  attn_value_weight :: "'a tensor"
  attn_dense_weight :: "'a tensor"
  ff_sub_layer_wg_weight :: "'a tensor"
  ff_sub_layer_w1_weight :: "'a tensor"
  ff_sub_layer_w2_weight :: "'a tensor"
  ln_weight :: "'a tensor"
  ff_ln_weight :: "'a tensor"

record 'a fms_hf_model =
  hf_config_nheads :: int
  hf_embedding_weight :: "'a tensor"
  hf_layers :: "'a fms_layer list"
  hf_rot_emb_freqs :: "'a tensor"
  hf_dec_norm_weight :: "'a tensor"
  hf_lm_head_weight :: "'a tensor"

text \<open>
  The target model, \<open>oss_hf_model\<close>, as \<open>LlamaForCausalLM(LlamaConfig(...))\<close> allocates it
  (lines 40-55; that constructor belongs to the transformers library, so the allocated
  model is an argument of the copy). \<open>rotary_emb_inv_freqs\<close> is the attribute
  \<open>self_attn.rotary_emb.inv_freqs\<close>, which line 75 assigns; it is \<open>None\<close> until then.
\<close>

record 'a oss_layer =
  q_proj_weight :: "'a tensor"
  k_proj_weight :: "'a tensor"
  v_proj_weight :: "'a tensor"
  o_proj_weight :: "'a tensor"
  rotary_emb_inv_freqs :: "'a tensor option"
  gate_proj_weight :: "'a tensor"
  up_proj_weight :: "'a tensor"
  down_proj_weight :: "'a tensor"
  input_layernorm_weight :: "'a tensor"
  post_attention_layernorm_weight :: "'a tensor"

record 'a oss_model =
  embed_tokens_weight :: "'a tensor"
  model_layers :: "'a oss_layer list"
  model_norm_weight :: "'a tensor"
  lm_head_weight :: "'a tensor"

text \<open>
  The body of the loop, lines 64-111, for the source layer \<open>fms_hf_layer\<close> and the target
  layer \<open>oss_hf_layer\<close>, in the order of the source. The first exception ends the copy.
\<close>

definition copy_layer :: "'a fms_hf_model \<Rightarrow> 'a fms_layer \<Rightarrow> 'a oss_layer \<Rightarrow> error + 'a oss_layer" where
  "copy_layer hf_model fms_hf_layer oss_hf_layer =
     ebind (copy_inplace (q_proj_weight oss_hf_layer) (attn_query_weight fms_hf_layer)) (\<lambda>q0.
     ebind (copy_inplace (k_proj_weight oss_hf_layer) (attn_key_weight fms_hf_layer)) (\<lambda>k0.
     ebind (copy_inplace (v_proj_weight oss_hf_layer) (attn_value_weight fms_hf_layer)) (\<lambda>v.
     ebind (copy_inplace (o_proj_weight oss_hf_layer) (attn_dense_weight fms_hf_layer)) (\<lambda>o_w.
     ebind (copy_inplace (gate_proj_weight oss_hf_layer) (ff_sub_layer_wg_weight fms_hf_layer)) (\<lambda>g.
     ebind (copy_inplace (up_proj_weight oss_hf_layer) (ff_sub_layer_w1_weight fms_hf_layer)) (\<lambda>u.
     ebind (copy_inplace (down_proj_weight oss_hf_layer) (ff_sub_layer_w2_weight fms_hf_layer)) (\<lambda>d.
     ebind (copy_inplace (input_layernorm_weight oss_hf_layer) (ln_weight fms_hf_layer)) (\<lambda>n1.
     ebind (copy_inplace (post_attention_layernorm_weight oss_hf_layer) (ff_ln_weight fms_hf_layer)) (\<lambda>n2.
     ebind (adjust (hf_config_nheads hf_model) q0) (\<lambda>q.
     ebind (copy_inplace q0 q) (\<lambda>q1.
     ebind (adjust (hf_config_nheads hf_model) k0) (\<lambda>k.
     ebind (copy_inplace k0 k) (\<lambda>k1.
     Inr \<lparr>q_proj_weight = q1, k_proj_weight = k1, v_proj_weight = v, o_proj_weight = o_w,
          rotary_emb_inv_freqs = Some (hf_rot_emb_freqs hf_model),
          gate_proj_weight = g, up_proj_weight = u, down_proj_weight = d,
          input_layernorm_weight = n1, post_attention_layernorm_weight = n2\<rparr>)))))))))))))"

text \<open>
  The loop, lines 60-113: it runs over the layers of the target, and reads the source
  layer \<open>hf_model.decoder.model.layers[i]\<close> first, which raises IndexError past the end.
\<close>

fun copy_layers :: "'a fms_hf_model \<Rightarrow> 'a oss_layer list \<Rightarrow> nat \<Rightarrow> error + 'a oss_layer list" where
  "copy_layers hf_model [] i = Inr []"
| "copy_layers hf_model (oss_hf_layer # rest) i =
     (if i < length (hf_layers hf_model) then
        ebind (copy_layer hf_model (hf_layers hf_model ! i) oss_hf_layer) (\<lambda>l.
        ebind (copy_layers hf_model rest (i + 1)) (\<lambda>ls. Inr (l # ls)))
      else Inl IndexError)"

text \<open>
  Lines 57-117: the embedding is copied, the layers are, and the final norm and the
  output head of the target become those of the source (lines 114-115, assignments).
  \<open>oss\<close> is the target as allocated.
\<close>

definition oss_hf_model :: "'a fms_hf_model \<Rightarrow> 'a oss_model \<Rightarrow> error + 'a oss_model" where
  "oss_hf_model hf_model oss =
     ebind (copy_inplace (embed_tokens_weight oss) (hf_embedding_weight hf_model)) (\<lambda>e.
     ebind (copy_layers hf_model (model_layers oss) 0) (\<lambda>ls.
     Inr (oss\<lparr>embed_tokens_weight := e, model_layers := ls,
               model_norm_weight := hf_dec_norm_weight hf_model,
               lm_head_weight := hf_lm_head_weight hf_model\<rparr>)))"

subsection \<open>The row permutation that "adjust" performs\<close>

text \<open>
  Row \<open>r\<close> of the adjusted weight is row \<open>row_perm h r\<close> of the weight, where \<open>h\<close> is half
  the head dimension: \<open>r\<close> is the index \<open>(i, j, k)\<close> in the size \<open>[nheads, 2, h]\<close>, that is
  \<open>r = (i * 2 + j) * h + k\<close>, and \<open>row_perm h r\<close> is the index \<open>(i, k, j)\<close> in the size
  \<open>[nheads, h, 2]\<close>. \<open>row_perm_inv\<close> is the map back.
\<close>

definition row_perm :: "nat \<Rightarrow> nat \<Rightarrow> nat" where
  "row_perm h r =
     (let i = r div (2 * h); j = (r mod (2 * h)) div h; k = r mod h
      in (i * h + k) * 2 + j)"

definition row_perm_inv :: "nat \<Rightarrow> nat \<Rightarrow> nat" where
  "row_perm_inv h r =
     (let i = r div (2 * h); k = (r mod (2 * h)) div 2; j = r mod 2
      in (i * 2 + j) * h + k)"

text \<open>
  Row \<open>r\<close> of a 2-D tensor (no row for another number of dimensions), and a list of
  elements regrouped by \<open>row_perm\<close>.
\<close>

definition row :: "'a tensor \<Rightarrow> nat \<Rightarrow> 'a list" where
  "row t r = (case shape t of [R, C] \<Rightarrow> take C (drop (r * C) (data t)) | _ \<Rightarrow> [])"

definition permuted :: "nat \<Rightarrow> nat \<Rightarrow> nat \<Rightarrow> 'a list \<Rightarrow> 'a list" where
  "permuted h R C xs = map (\<lambda>m. xs ! (row_perm h (m div C) * C + m mod C)) [0..<R * C]"

section \<open>\<open>LLaMAHFConfig\<close> (fms/models/hf/llama/configuration_llama_hf.py)\<close>

text \<open>
  Python values of the configuration, and keyword dictionaries. A float is written as the
  number it denotes; the configuration code moves values and never computes with them.
\<close>

datatype pyval = PNone | PBool bool | PInt int | PFloat real | PStr string

type_synonym pydict = "string \<rightharpoonup> pyval"

record llama_hf_config =
  src_vocab_size :: pyval
  emb_dim :: pyval
  norm_eps :: pyval
  nheads :: pyval
  kvheads :: pyval
  nlayers :: pyval
  hidden_grow_factor :: pyval
  multiple_of :: pyval
  activation_fn :: pyval
  p_dropout :: pyval
  max_expected_seq_len :: pyval
  use_cache :: pyval
  pad_token_id :: pyval
  eos_token_id :: pyval
  bos_token_id :: pyval
  is_decoder :: pyval
  tie_word_embeddings :: pyval

text \<open>A keyword argument, or the default of its parameter.\<close>

definition arg :: "pydict \<Rightarrow> string \<Rightarrow> pyval \<Rightarrow> pyval" where
  "arg kw k dflt = (case kw k of Some v \<Rightarrow> v | None \<Rightarrow> dflt)"

text \<open>
  \<open>LLaMAHFConfig.__init__\<close> called with the keywords \<open>kw\<close> (lines 10-48). A keyword that names
  no parameter lands in \<open>**kwargs\<close>, which the body never reads. The last five fields are
  those that \<open>PretrainedConfig.__init__\<close> stores from the keywords of lines 42-48.
\<close>

definition LLaMAHFConfig_init :: "pydict \<Rightarrow> llama_hf_config" where
  "LLaMAHFConfig_init kw =
     \<lparr>src_vocab_size = arg kw ''src_vocab_size'' (PInt 32000),
      emb_dim = arg kw ''emb_dim'' (PInt 4096),
      norm_eps = arg kw ''norm_eps'' (PFloat (1 / 1000000)),
      nheads = arg kw ''nheads'' (PInt 32),
      kvheads = arg kw ''kvheads'' (PInt 0),
      nlayers = arg kw ''nlayers'' (PInt 32),
      hidden_grow_factor = arg kw ''hidden_grow_factor'' (PFloat (8 / 3)),
      multiple_of = arg kw ''multiple_of'' (PFloat 256),
      activation_fn = arg kw ''activation_fn'' (PStr ''swish''),
      p_dropout = arg kw ''p_dropout'' (PFloat 0),
      max_expected_seq_len = arg kw ''max_expected_seq_len'' (PInt 2048),
      use_cache = arg kw ''use_cache'' (PBool True),
      pad_token_id = arg kw ''pad_token_id'' (PInt (- 1)),
      eos_token_id = arg kw ''eos_token_id'' (PInt 2),
      bos_token_id = arg kw ''bos_token_id'' (PInt 1),
      is_decoder = arg kw ''is_decoder'' (PBool True),
      tie_word_embeddings = PBool False\<rparr>"

text \<open>
  \<open>PretrainedConfig.from_dict(config_dict, **kwargs)\<close> of the transformers library:
  \<open>cls(**config_dict)\<close>, then \<open>setattr(config, key, value)\<close> for every keyword of \<open>kwargs\<close>
  that names an attribute of the configuration.
\<close>

definition from_dict :: "pydict \<Rightarrow> pydict \<Rightarrow> llama_hf_config" where
  "from_dict config_dict kwargs =
     (let c = LLaMAHFConfig_init config_dict in
      \<lparr>src_vocab_size = arg kwargs ''src_vocab_size'' (src_vocab_size c),
       emb_dim = arg kwargs ''emb_dim'' (emb_dim c),
       norm_eps = arg kwargs ''norm_eps'' (norm_eps c),
       nheads = arg kwargs ''nheads'' (nheads c),
       kvheads = arg kwargs ''kvheads'' (kvheads c),
       nlayers = arg kwargs ''nlayers'' (nlayers c),
       hidden_grow_factor = arg kwargs ''hidden_grow_factor'' (hidden_grow_factor c),
       multiple_of = arg kwargs ''multiple_of'' (multiple_of c),
       activation_fn = arg kwargs ''activation_fn'' (activation_fn c),
       p_dropout = arg kwargs ''p_dropout'' (p_dropout c),
       max_expected_seq_len = arg kwargs ''max_expected_seq_len'' (max_expected_seq_len c),
       use_cache = arg kwargs ''use_cache'' (use_cache c),
       pad_token_id = arg kwargs ''pad_token_id'' (pad_token_id c),
       eos_token_id = arg kwargs ''eos_token_id'' (eos_token_id c),
       bos_token_id = arg kwargs ''bos_token_id'' (bos_token_id c),
       is_decoder = arg kwargs ''is_decoder'' (is_decoder c),
       tie_word_embeddings = arg kwargs ''tie_word_embeddings'' (tie_word_embeddings c)\<rparr>)"

text \<open>\<open>d.pop(k)\<close> without default: the value and the dictionary without the key, or KeyError.\<close>

definition pop :: "pydict \<Rightarrow> string \<Rightarrow> error + (pyval \<times> pydict)" where
  "pop d k = (case d k of None \<Rightarrow> Inl KeyError | Some v \<Rightarrow> Inr (v, d(k := None)))"

text \<open>Line 59: \<^verbatim>\<open>config_dict["pad_token_id"] = config_dict.pop("pad_id")\<close>.\<close>

definition rename_pad_id :: "pydict \<Rightarrow> error + pydict" where
  "rename_pad_id config_dict =
     ebind (pop config_dict ''pad_id'') (\<lambda>(v, d). Inr (d(''pad_token_id'' \<mapsto> v)))"

text \<open>
  \<open>LLaMAHFConfig.from_fms_config(config, **hf_kwargs)\<close>, lines 56-60. \<open>config_dict\<close> is
  \<open>config.as_dict()\<close>, the fields of the \<open>LLaMAConfig\<close> by name (\<open>LLaMAConfig\<close> is defined in
  fms/models/llama.py, so its dictionary is an argument here).
\<close>

definition from_fms_config :: "pydict \<Rightarrow> pydict \<Rightarrow> error + llama_hf_config" where
  "from_fms_config config_dict hf_kwargs =
     ebind (rename_pad_id config_dict) (\<lambda>d. Inr (from_dict d hf_kwargs))"

section \<open>\<open>pad_prompt\<close> (scripts/inference.py)\<close>

text \<open>
  A 1-D tensor of token ids is \<open>LongTensor\<close> (\<open>ids_for_prompt\<close> builds the prompts with
  \<open>dtype=torch.long\<close>). \<open>torch.tensor([])\<close> has the default floating dtype, and \<open>torch.cat\<close>
  promotes: joined with an empty float tensor, the ids come back converted to that
  dtype (\<open>to_float\<close>), as a \<open>FloatTensor\<close>.
\<close>

datatype 'f ids = LongTensor "int list" | FloatTensor "'f list"

text \<open>
  Lines 153-160. \<open>convert_tokens_to_ids\<close> is the tokenizer's (an argument: the tokenizer is
  loaded from a file). \<open>[pad_id] * to_pad\<close> is the empty list when \<open>to_pad\<close> is negative.
\<close>

definition pad_prompt :: "(string \<Rightarrow> int) \<Rightarrow> (int \<Rightarrow> 'f) \<Rightarrow> int list \<Rightarrow> int \<Rightarrow> string \<Rightarrow> 'f ids" where
  "pad_prompt convert_tokens_to_ids to_float prompt pad_len pad_token =
     (let to_pad = pad_len - int (length prompt) in
      if to_pad = 0 then LongTensor prompt
      else
        (let pad_id = convert_tokens_to_ids pad_token;
             pad_ids = replicate (nat to_pad) pad_id
         in if pad_ids = [] then FloatTensor (map to_float prompt)
            else LongTensor (pad_ids @ prompt)))"

section \<open>Well-formed inputs\<close>

text \<open>
  Every tensor of a source layer holds as many elements as its size says, and a target
  layer is allocated with the sizes of the source layer (both models are built from the
  same configuration).
\<close>

definition wf_fms_layer :: "'a fms_layer \<Rightarrow> bool" where
  "wf_fms_layer f =
     (wf_tensor (attn_query_weight f) \<and> wf_tensor (attn_key_weight f) \<and>
      wf_tensor (attn_value_weight f) \<and> wf_tensor (attn_dense_weight f) \<and>
      wf_tensor (ff_sub_layer_wg_weight f) \<and> wf_tensor (ff_sub_layer_w1_weight f) \<and>
      wf_tensor (ff_sub_layer_w2_weight f) \<and> wf_tensor (ln_weight f) \<and>
      wf_tensor (ff_ln_weight f))"

definition layer_sizes_agree :: "'a oss_layer \<Rightarrow> 'a fms_layer \<Rightarrow> bool" where
  "layer_sizes_agree l f =
     (shape (q_proj_weight l) = shape (attn_query_weight f) \<and>
      shape (k_proj_weight l) = shape (attn_key_weight f) \<and>
      shape (v_proj_weight l) = shape (attn_value_weight f) \<and>
      shape (o_proj_weight l) = shape (attn_dense_weight f) \<and>
      shape (gate_proj_weight l) = shape (ff_sub_layer_wg_weight f) \<and>
      shape (up_proj_weight l) = shape (ff_sub_layer_w1_weight f) \<and>
      shape (down_proj_weight l) = shape (ff_sub_layer_w2_weight f) \<and>
      shape (input_layernorm_weight l) = shape (ln_weight f) \<and>
      shape (post_attention_layernorm_weight l) = shape (ff_ln_weight f))"

text \<open>
  A projection weight that "adjust" accepts: 2-D, a positive head count that divides the
  rows into heads of an even size, and at least one column.
\<close>

definition adjustable :: "int \<Rightarrow> 'a tensor \<Rightarrow> bool" where
  "adjustable nh w =
     (length (shape w) = 2 \<and> 0 < nh \<and> 2 * nh dvd int (shape w ! 0) \<and> 0 < shape w ! 1)"

definition layer_ok :: "'a fms_hf_model \<Rightarrow> 'a oss_layer \<Rightarrow> 'a fms_layer \<Rightarrow> bool" where
  "layer_ok hf l f =
     (wf_fms_layer f \<and> layer_sizes_agree l f \<and>
      adjustable (hf_config_nheads hf) (attn_query_weight f) \<and>
      adjustable (hf_config_nheads hf) (attn_key_weight f))"

section \<open>The translation as the specification words it\<close>

text \<open>
  \<open>rows_permuted n w w'\<close>: \<open>w'\<close> has the size of \<open>w\<close>, and its rows are those of \<open>w\<close>
  regrouped from \<open>[n, h, 2]\<close> to \<open>[n, 2, h]\<close>, \<open>h\<close> being half the head dimension; the
  map of row indices is a bijection on the rows.
\<close>

definition rows_permuted :: "nat \<Rightarrow> 'a tensor \<Rightarrow> 'a tensor \<Rightarrow> bool" where
  "rows_permuted n w w' =
     (case shape w of
        [R, C] \<Rightarrow>
          (let h = R div (2 * n) in
           shape w' = shape w \<and>
           (\<forall>r<R. row w' r = row w (row_perm h r)) \<and>
           bij_betw (row_perm h) {..<R} {..<R})
      | _ \<Rightarrow> False)"

text \<open>
  Section 4.1 of the specification, \<open>translate(source, nheads)\<close>: Q and K are regrouped
  by rows, every other tensor is taken as it is. These definitions follow the
  specification's words; \<open>oss_hf_model\<close> above is the code.
\<close>

definition permute_rows :: "nat \<Rightarrow> 'a tensor \<Rightarrow> 'a tensor" where
  "permute_rows n w =
     (case shape w of
        [R, C] \<Rightarrow> \<lparr>shape = [R, C], data = permuted (R div (2 * n)) R C (data w)\<rparr>
      | _ \<Rightarrow> w)"

definition translate_layer :: "'a fms_hf_model \<Rightarrow> 'a fms_layer \<Rightarrow> 'a oss_layer" where
  "translate_layer hf f =
     \<lparr>q_proj_weight = permute_rows (nat (hf_config_nheads hf)) (attn_query_weight f),
      k_proj_weight = permute_rows (nat (hf_config_nheads hf)) (attn_key_weight f),
      v_proj_weight = attn_value_weight f, o_proj_weight = attn_dense_weight f,
      rotary_emb_inv_freqs = Some (hf_rot_emb_freqs hf),
      gate_proj_weight = ff_sub_layer_wg_weight f, up_proj_weight = ff_sub_layer_w1_weight f,
      down_proj_weight = ff_sub_layer_w2_weight f,
      input_layernorm_weight = ln_weight f, post_attention_layernorm_weight = ff_ln_weight f\<rparr>"

definition translate :: "'a fms_hf_model \<Rightarrow> 'a oss_model" where
  "translate hf =
     \<lparr>embed_tokens_weight = hf_embedding_weight hf,
      model_layers = map (translate_layer hf) (hf_layers hf),
      model_norm_weight = hf_dec_norm_weight hf,
      lm_head_weight = hf_lm_head_weight hf\<rparr>"

section \<open>Example inputs\<close>

text \<open>A tensor of the given size holding \<open>b, b + 1, ...\<close>.\<close>

definition iota :: "nat list \<Rightarrow> nat \<Rightarrow> nat tensor" where
  "iota s b = \<lparr>shape = s, data = map (\<lambda>i. b + i) [0..<prod_list s]\<rparr>"

text \<open>
  A source layer and an allocated target layer for hidden size 4 and intermediate size 2;
  the allocated tensors are zero.
\<close>

definition ex_fms_layer :: "nat \<Rightarrow> nat fms_layer" where
  "ex_fms_layer b =
     \<lparr>attn_query_weight = iota [4, 4] (b + 100), attn_key_weight = iota [4, 4] (b + 200),
      attn_value_weight = iota [4, 4] (b + 300), attn_dense_weight = iota [4, 4] (b + 400),
      ff_sub_layer_wg_weight = iota [2, 4] (b + 500), ff_sub_layer_w1_weight = iota [2, 4] (b + 600),
      ff_sub_layer_w2_weight = iota [4, 2] (b + 700),
      ln_weight = iota [4] (b + 800), ff_ln_weight = iota [4] (b + 900)\<rparr>"

definition zeros :: "nat list \<Rightarrow> nat tensor" where
  "zeros s = \<lparr>shape = s, data = replicate (prod_list s) 0\<rparr>"

definition ex_oss_layer :: "nat oss_layer" where
  "ex_oss_layer =
     \<lparr>q_proj_weight = zeros [4, 4], k_proj_weight = zeros [4, 4], v_proj_weight = zeros [4, 4],
      o_proj_weight = zeros [4, 4], rotary_emb_inv_freqs = None,
      gate_proj_weight = zeros [2, 4], up_proj_weight = zeros [2, 4],
      down_proj_weight = zeros [4, 2],
      input_layernorm_weight = zeros [4], post_attention_layernorm_weight = zeros [4]\<rparr>"

text \<open>
  A source with the given layers, one head and vocabulary 3, and an allocated target with
  the given layers; then sources and targets of one and of two layers.
\<close>

definition ex_hf :: "nat fms_layer list \<Rightarrow> nat fms_hf_model" where
  "ex_hf ls =
     \<lparr>hf_config_nheads = 1, hf_embedding_weight = iota [3, 4] 10, hf_layers = ls,
      hf_rot_emb_freqs = iota [2] 30, hf_dec_norm_weight = iota [4] 40,
      hf_lm_head_weight = iota [3, 4] 50\<rparr>"

definition ex_oss :: "nat oss_layer list \<Rightarrow> nat oss_model" where
  "ex_oss ls =
     \<lparr>embed_tokens_weight = zeros [3, 4], model_layers = ls,
      model_norm_weight = zeros [4], lm_head_weight = zeros [3, 4]\<rparr>"

definition ex_hf1 :: "nat fms_hf_model" where
  "ex_hf1 = ex_hf [ex_fms_layer 1000]"

definition ex_hf2 :: "nat fms_hf_model" where
  "ex_hf2 = ex_hf [ex_fms_layer 1000, ex_fms_layer 2000]"

definition ex_oss1 :: "nat oss_model" where
  "ex_oss1 = ex_oss [ex_oss_layer]"

definition ex_oss2 :: "nat oss_model" where
  "ex_oss2 = ex_oss [ex_oss_layer, ex_oss_layer]"



text \<open>The dictionary of a source configuration.\<close>

definition ex_config_dict :: pydict where
  "ex_config_dict =
     [''src_vocab_size'' \<mapsto> PInt 256, ''emb_dim'' \<mapsto> PInt 16, ''norm_eps'' \<mapsto> PFloat (1 / 100000),
      ''nheads'' \<mapsto> PInt 2, ''kvheads'' \<mapsto> PInt 0, ''nlayers'' \<mapsto> PInt 2, ''pad_id'' \<mapsto> PInt 0,
      ''hidden_grow_factor'' \<mapsto> PFloat 2, ''multiple_of'' \<mapsto> PInt 2,
      ''activation_fn'' \<mapsto> PStr ''swish'', ''p_dropout'' \<mapsto> PFloat 0,
      ''max_expected_seq_len'' \<mapsto> PInt 4096, ''ntk_scaling'' \<mapsto> PBool False]"

section \<open>Tensor lemmas\<close>

lemma ebind_Inr: "ebind (Inr v) f = f v"
  by (simp add: ebind_def)

lemma row_perm_alt:
  "row_perm h r = (r div (2 * h)) * (2 * h) + (r mod h) * 2 + (r mod (2 * h)) div h"
  by (simp add: row_perm_def Let_def algebra_simps)

lemma row_perm_inv_alt:
  "row_perm_inv h r = (r div (2 * h)) * (2 * h) + (r mod 2) * h + (r mod (2 * h)) div 2"
  by (simp add: row_perm_inv_def Let_def algebra_simps)

lemma length_unravel: "length (unravel s n) = length s"
  by (induction s arbitrary: n) auto

lemma ravel_unravel: "n < prod_list s \<Longrightarrow> ravel s (unravel s n) = n"
proof (induction s arbitrary: n)
  case Nil
  then show ?case by simp
next
  case (Cons a s)
  have pos: "0 < prod_list s" using Cons.prems by (cases "prod_list s = 0") auto
  then have "n mod prod_list s < prod_list s" by simp
  then show ?case using Cons.IH by simp
qed

lemma expand_index_unravel:
  "n < prod_list s \<Longrightarrow> expand_index s (unravel s n) = unravel s n"
proof (induction s arbitrary: n)
  case Nil
  then show ?case by (simp add: expand_index_def)
next
  case (Cons a s)
  have pos: "0 < prod_list s" using Cons.prems by (cases "prod_list s = 0") auto
  then have lt: "n mod prod_list s < prod_list s" by simp
  have "a = 1 \<Longrightarrow> n div prod_list s = 0" using Cons.prems by simp
  then show ?case using Cons.IH[OF lt] by (simp add: expand_index_def length_unravel)
qed

lemma broadcastable_refl: "broadcastable s s"
  by (simp add: broadcastable_def list_all2_same)

lemma copy_inplace_same_shape:
  assumes "wf_tensor src" "shape src = shape dst"
  shows "copy_inplace dst src = Inr src"
proof -
  have "map (\<lambda>n. data src ! ravel (shape src) (expand_index (shape src) (unravel (shape dst) n)))
          [0..<numel dst] = map (\<lambda>n. data src ! n) [0..<numel dst]"
    using assms by (intro map_cong) (auto simp: numel_def expand_index_unravel ravel_unravel)
  also have "\<dots> = data src"
    using assms map_nth[of "data src"] by (simp add: wf_tensor_def numel_def)
  finally show ?thesis
    using assms by (simp add: copy_inplace_def broadcastable_refl)
qed

lemma transposed_index:
  fixes m h C :: nat
  assumes "0 < C"
  shows "ravel [n, h, 2, C] (swap_dims 1 2 (unravel [n, 2, h, C] m))
         = row_perm h (m div C) * C + m mod C"
proof -
  define r where "r = m div C"
  define l where "l = m mod C"
  have m: "m = C * r + l" and l: "l < C" using assms by (simp_all add: r_def l_def)
  have e2: "2 * (h * C) = C * (2 * h)" and e1: "h * C = C * h" by simp_all
  have i: "m div (2 * (h * C)) = r div (2 * h)"
    unfolding r_def e2 by (rule div_mult2_eq)
  have m1: "m mod (2 * (h * C)) = C * (r mod (2 * h)) + l"
    unfolding e2 r_def l_def by (rule mod_mult2_eq)
  have m2: "m mod (h * C) = C * (r mod h) + l"
    unfolding e1 r_def l_def by (rule mod_mult2_eq)
  have j: "(C * (r mod (2 * h)) + l) div (h * C) = (r mod (2 * h)) div h"
    unfolding e1 div_mult2_eq using l by simp
  have "(m mod (2 * (h * C))) mod (h * C) = m mod (h * C)"
    by (rule mod_mod_cancel) simp
  then have mm: "(C * (r mod (2 * h)) + l) mod (h * C) = C * (r mod h) + l"
    by (simp only: m1 m2)
  have k: "(C * (r mod h) + l) div C = r mod h" using l by simp
  have ll: "(C * (r mod h) + l) mod C = l" using l by simp
  have u: "unravel [n, 2, h, C] m = [r div (2 * h), (r mod (2 * h)) div h, r mod h, l]"
    using l by (simp add: i m1 j mm k ll)
  have "ravel [n, h, 2, C] (swap_dims 1 2 (unravel [n, 2, h, C] m))
        = row_perm h r * C + l"
    unfolding u by (simp add: swap_dims_def row_perm_alt algebra_simps)
  then show ?thesis by (simp only: r_def l_def)
qed


lemma row_perm_parts:
  assumes h: "0 < h"
  obtains i j k where "j < 2" "k < h" "r = i * (2 * h) + (j * h + k)"
    "row_perm h r = i * (2 * h) + (k * 2 + j)" "i = r div (2 * h)"
proof -
  define i where "i = r div (2 * h)"
  define x where "x = r mod (2 * h)"
  define j where "j = x div h"
  define k where "k = x mod h"
  have x: "x < 2 * h" using h by (simp add: x_def)
  have j: "j < 2" unfolding j_def using x h by (simp add: less_mult_imp_div_less mult.commute)
  have k: "k < h" using h by (simp add: k_def)
  have xk: "x = j * h + k" by (simp add: j_def k_def)
  have "r mod (2 * h) mod h = r mod h" by (rule mod_mod_cancel) simp
  then have kr: "r mod h = k" by (simp add: k_def x_def)
  have r: "r = i * (2 * h) + (j * h + k)"
    unfolding xk[symmetric] i_def x_def by (rule div_mult_mod_eq[symmetric])
  have "row_perm h r = i * (2 * h) + (k * 2 + j)"
    by (simp add: row_perm_alt kr i_def j_def x_def)
  then show ?thesis using that j k r i_def by blast
qed

lemma row_perm_inv_parts:
  assumes h: "0 < h"
  obtains i j k where "j < 2" "k < h" "r = i * (2 * h) + (k * 2 + j)"
    "row_perm_inv h r = i * (2 * h) + (j * h + k)" "i = r div (2 * h)"
proof -
  define i where "i = r div (2 * h)"
  define x where "x = r mod (2 * h)"
  define j where "j = x mod 2"
  define k where "k = x div 2"
  have x: "x < 2 * h" using h by (simp add: x_def)
  have j: "j < 2" by (simp add: j_def)
  have k: "k < h" unfolding k_def using x by simp
  have xk: "x = k * 2 + j" by (simp add: j_def k_def)
  have "r mod (2 * h) mod 2 = r mod 2" by (rule mod_mod_cancel) simp
  then have jr: "r mod 2 = j" by (simp add: j_def x_def)
  have r: "r = i * (2 * h) + (k * 2 + j)"
    unfolding xk[symmetric] i_def x_def by (rule div_mult_mod_eq[symmetric])
  have "row_perm_inv h r = i * (2 * h) + (j * h + k)"
    by (simp add: row_perm_inv_alt jr i_def k_def x_def)
  then show ?thesis using that j k r i_def by blast
qed

lemma pair_lt: "j < 2 \<Longrightarrow> k < h \<Longrightarrow> k * 2 + j < 2 * (h::nat)"
  by simp

lemma pair_lt': "j < 2 \<Longrightarrow> k < h \<Longrightarrow> j * h + k < 2 * (h::nat)"
proof -
  assume "j < 2" "k < h"
  then have "j = 0 \<or> j = 1" by auto
  then show ?thesis using \<open>k < h\<close> by auto
qed

text \<open>The map in terms of the index \<open>(i, j, k)\<close>.\<close>

lemma row_perm_index:
  assumes j: "j < 2" and k: "k < h"
  shows "row_perm h ((i * 2 + j) * h + k) = (i * h + k) * 2 + j"
proof -
  have y: "j * h + k < 2 * h" using j k by (rule pair_lt')
  have e: "(i * 2 + j) * h + k = i * (2 * h) + (j * h + k)" by (simp add: algebra_simps)
  have d: "(i * (2 * h) + (j * h + k)) div (2 * h) = i"
    and m: "(i * (2 * h) + (j * h + k)) mod (2 * h) = j * h + k"
    using y by simp_all
  have jj: "(j * h + k) div h = j" using k by simp
  have "(i * (2 * h) + (j * h + k)) mod h = ((i * 2 + j) * h + k) mod h"
    by (simp only: e)
  also have "\<dots> = k" using k by simp
  finally have kk: "(i * (2 * h) + (j * h + k)) mod h = k" .
  show ?thesis
    unfolding e row_perm_def Let_def d m jj kk ..
qed

lemma row_perm_inv_row_perm:
  assumes h: "0 < h"
  shows "row_perm_inv h (row_perm h r) = r"
proof -
  obtain i j k where a: "j < 2" "k < h" "r = i * (2 * h) + (j * h + k)"
    "row_perm h r = i * (2 * h) + (k * 2 + j)"
    using row_perm_parts[OF h, of r] by metis
  have y: "k * 2 + j < 2 * h" using a by (simp add: pair_lt)
  have e: "i * (2 * h) + (k * 2 + j) = 2 * (i * h + k) + j" by simp
  have "(2 * (i * h + k) + j) mod 2 = j mod 2" by (rule mod_mult_self4)
  then have m: "(i * (2 * h) + (k * 2 + j)) mod 2 = j"
    unfolding e using a(1) by (simp only: mod_less)
  have "row_perm_inv h (i * (2 * h) + (k * 2 + j)) = i * (2 * h) + (j * h + k)"
    unfolding row_perm_inv_alt using y a(1) m by simp
  then show ?thesis using a by simp
qed

lemma row_perm_row_perm_inv:
  assumes h: "0 < h"
  shows "row_perm h (row_perm_inv h r) = r"
proof -
  obtain i j k where a: "j < 2" "k < h" "r = i * (2 * h) + (k * 2 + j)"
    "row_perm_inv h r = i * (2 * h) + (j * h + k)"
    using row_perm_inv_parts[OF h, of r] by metis
  have y: "j * h + k < 2 * h" using a by (simp add: pair_lt')
  have m: "(i * (2 * h) + (j * h + k)) mod h = k"
    using a(2) by (simp add: mult.assoc[symmetric])
  have "row_perm h (i * (2 * h) + (j * h + k)) = i * (2 * h) + (k * 2 + j)"
    unfolding row_perm_alt using y a(1,2) m by simp
  then show ?thesis using a by simp
qed

lemma row_perm_less:
  assumes "r < n * (2 * h)"
  shows "row_perm h r < n * (2 * h)"
proof -
  have h: "0 < h" using assms by (cases h) auto
  obtain i j k where a: "j < 2" "k < h" "r = i * (2 * h) + (j * h + k)"
    "row_perm h r = i * (2 * h) + (k * 2 + j)" "i = r div (2 * h)"
    using row_perm_parts[OF h, of r] by metis
  have "i < n" using assms h a(5) by (simp add: less_mult_imp_div_less)
  then have "Suc i \<le> n" by simp
  then have "Suc i * (2 * h) \<le> n * (2 * h)" by (rule mult_le_mono1)
  moreover have "k * 2 + j < 2 * h" using a by (simp add: pair_lt)
  ultimately show ?thesis using a(4) by simp
qed

lemma row_perm_inv_less:
  assumes "r < n * (2 * h)"
  shows "row_perm_inv h r < n * (2 * h)"
proof -
  have h: "0 < h" using assms by (cases h) auto
  obtain i j k where a: "j < 2" "k < h" "r = i * (2 * h) + (k * 2 + j)"
    "row_perm_inv h r = i * (2 * h) + (j * h + k)" "i = r div (2 * h)"
    using row_perm_inv_parts[OF h, of r] by metis
  have "i < n" using assms h a(5) by (simp add: less_mult_imp_div_less)
  then have "Suc i \<le> n" by simp
  then have "Suc i * (2 * h) \<le> n * (2 * h)" by (rule mult_le_mono1)
  moreover have "j * h + k < 2 * h" using a by (simp add: pair_lt')
  ultimately show ?thesis using a(4) by simp
qed

lemma row_perm_bij: "bij_betw (row_perm h) {..<n * (2 * h)} {..<n * (2 * h)}"
proof (cases "h = 0")
  case True
  then show ?thesis by (simp add: bij_betw_def)
next
  case False
  then have h: "0 < h" by simp
  show ?thesis
    by (rule bij_betw_byWitness[where f' = "row_perm_inv h"])
      (auto simp: row_perm_inv_row_perm[OF h] row_perm_row_perm_inv[OF h]
        row_perm_less row_perm_inv_less)
qed


lemma infer_scan_nat:
  "infer_scan (map int s) d acc None = Inr (acc * prod_list s, None)"
  by (induction s arbitrary: d acc) (simp_all add: mult.assoc)

lemma infer_size_nat:
  "infer_size (map int s) n = (if n = prod_list s then Inr s else Inl (RuntimeError Invalid_shape))"
  by (simp add: infer_size_def infer_scan_nat comp_def)

lemma adjust_ok:
  assumes sh: "shape q = [n * (2 * h), C]" and n: "0 < n" and C: "0 < C"
  shows "adjust (int n) q = Inr \<lparr>shape = [n * (2 * h), C],
           data = permuted h (n * (2 * h)) C (data q)\<rparr>"
proof -
  have sd: "size_dim q 1 = Inr C" by (simp add: size_dim_def sh)
  have ne: "numel q = (n * 2 * C) * h" by (simp add: numel_def sh)
  have "infer_size [int n, -1, 2, int C] (numel q) = Inr [n, h, 2, C]"
    unfolding ne using n C by (simp add: infer_size_def)
  then have vw: "view q [int n, -1, 2, int C] = Inr (q\<lparr>shape := [n, h, 2, C]\<rparr>)"
    by (simp add: view_def ebind_def)
  have "map (\<lambda>m. data q ! ravel [n, h, 2, C] (swap_dims 1 2 (unravel [n, 2, h, C] m)))
          [0..<n * (2 * h) * C] = permuted h (n * (2 * h)) C (data q)"
    unfolding permuted_def using C by (intro map_cong refl) (simp only: transposed_index)
  then have tr: "transpose_dims (q\<lparr>shape := [n, h, 2, C]\<rparr>) 1 2 =
      Inr \<lparr>shape = [n, 2, h, C], data = permuted h (n * (2 * h)) C (data q)\<rparr>"
    by (simp add: transpose_dims_def numel_def swap_dims_def mult_ac)
  have "infer_size (map int (shape q)) (numel \<lparr>shape = [n, 2, h, C], data = d\<rparr>)
          = Inr [n * (2 * h), C]" for d :: "'a list"
    unfolding infer_size_nat by (simp add: sh numel_def)
  then have rs: "reshape \<lparr>shape = [n, 2, h, C], data = d\<rparr> (map int (shape q))
      = Inr \<lparr>shape = [n * (2 * h), C], data = d\<rparr>" for d :: "'a list"
    by (simp add: reshape_def ebind_def)
  show ?thesis
    by (simp only: adjust_def sd ebind_Inr vw tr rs)
qed

lemma length_permuted: "length (permuted h R C xs) = R * C"
  by (simp add: permuted_def)

lemma row_nth:
  assumes "length (data t) = R * C" "shape t = [R, C]" "r < R"
  shows "row t r = map (\<lambda>l. data t ! (r * C + l)) [0..<C]"
proof -
  have "Suc r * C \<le> R * C" using assms(3) by (intro mult_le_mono1) simp
  then have le: "r * C + C \<le> length (data t)" using assms(1) by simp
  show ?thesis
    unfolding row_def using le
    by (auto simp: assms(2) intro!: nth_equalityI)
qed

lemma row_permuted:
  assumes len: "length xs = n * (2 * h) * C" and r: "r < n * (2 * h)"
  shows "row \<lparr>shape = [n * (2 * h), C], data = permuted h (n * (2 * h)) C xs\<rparr> r
       = row \<lparr>shape = [n * (2 * h), C], data = xs\<rparr> (row_perm h r)"
proof (cases "C = 0")
  case True
  then show ?thesis by (simp add: row_def)
next
  case False
  then have C: "0 < C" by simp
  let ?R = "n * (2 * h)"
  have pr: "row_perm h r < ?R" using r by (rule row_perm_less)
  have "Suc r * C \<le> ?R * C" using r by (intro mult_le_mono1) simp
  then have in_range: "r * C + l < ?R * C" if "l < C" for l using that by simp
  have "row \<lparr>shape = [?R, C], data = permuted h ?R C xs\<rparr> r
        = map (\<lambda>l. permuted h ?R C xs ! (r * C + l)) [0..<C]"
    by (subst row_nth[where R = ?R and C = C]) (simp_all add: length_permuted r)
  also have "\<dots> = map (\<lambda>l. xs ! (row_perm h r * C + l)) [0..<C]"
    using C in_range by (intro map_cong refl) (simp add: permuted_def)
  also have "\<dots> = row \<lparr>shape = [?R, C], data = xs\<rparr> (row_perm h r)"
    by (subst row_nth[where R = ?R and C = C]) (simp_all add: len pr)
  finally show ?thesis .
qed

section \<open>The copy, step by step\<close>

lemma ebind_eq_Inr: "ebind m f = Inr r \<longleftrightarrow> (\<exists>v. m = Inr v \<and> f v = Inr r)"
  by (cases m) (simp_all add: ebind_def)

lemma ebind_Inl: "ebind (Inl e) f = Inl e"
  by (simp add: ebind_def)


lemma copy_layer_InrD:
  assumes "copy_layer hf f l = Inr l'"
  obtains q0 k0 q k where
    "copy_inplace (q_proj_weight l) (attn_query_weight f) = Inr q0"
    "adjust (hf_config_nheads hf) q0 = Inr q" "copy_inplace q0 q = Inr (q_proj_weight l')"
    "copy_inplace (k_proj_weight l) (attn_key_weight f) = Inr k0"
    "adjust (hf_config_nheads hf) k0 = Inr k" "copy_inplace k0 k = Inr (k_proj_weight l')"
    "copy_inplace (v_proj_weight l) (attn_value_weight f) = Inr (v_proj_weight l')"
    "copy_inplace (o_proj_weight l) (attn_dense_weight f) = Inr (o_proj_weight l')"
    "copy_inplace (gate_proj_weight l) (ff_sub_layer_wg_weight f) = Inr (gate_proj_weight l')"
    "copy_inplace (up_proj_weight l) (ff_sub_layer_w1_weight f) = Inr (up_proj_weight l')"
    "copy_inplace (down_proj_weight l) (ff_sub_layer_w2_weight f) = Inr (down_proj_weight l')"
    "copy_inplace (input_layernorm_weight l) (ln_weight f) = Inr (input_layernorm_weight l')"
    "copy_inplace (post_attention_layernorm_weight l) (ff_ln_weight f)
       = Inr (post_attention_layernorm_weight l')"
    "rotary_emb_inv_freqs l' = Some (hf_rot_emb_freqs hf)"
  using assms unfolding copy_layer_def ebind_eq_Inr by (elim exE conjE) (auto intro: that)

lemma copy_layer_q:
  assumes "copy_layer hf f l = Inr l'"
  obtains q0 q where
    "copy_inplace (q_proj_weight l) (attn_query_weight f) = Inr q0"
    "adjust (hf_config_nheads hf) q0 = Inr q" "copy_inplace q0 q = Inr (q_proj_weight l')"
  by (rule copy_layer_InrD[OF assms], rule that)

lemma copy_layer_k:
  assumes "copy_layer hf f l = Inr l'"
  obtains k0 k where
    "copy_inplace (k_proj_weight l) (attn_key_weight f) = Inr k0"
    "adjust (hf_config_nheads hf) k0 = Inr k" "copy_inplace k0 k = Inr (k_proj_weight l')"
  by (rule copy_layer_InrD[OF assms], rule that)

lemma copy_layer_frame:
  assumes "copy_layer hf f l = Inr l'"
  shows "copy_inplace (v_proj_weight l) (attn_value_weight f) = Inr (v_proj_weight l')"
    and "copy_inplace (o_proj_weight l) (attn_dense_weight f) = Inr (o_proj_weight l')"
    and "copy_inplace (gate_proj_weight l) (ff_sub_layer_wg_weight f) = Inr (gate_proj_weight l')"
    and "copy_inplace (up_proj_weight l) (ff_sub_layer_w1_weight f) = Inr (up_proj_weight l')"
    and "copy_inplace (down_proj_weight l) (ff_sub_layer_w2_weight f) = Inr (down_proj_weight l')"
    and "copy_inplace (input_layernorm_weight l) (ln_weight f) = Inr (input_layernorm_weight l')"
    and "copy_inplace (post_attention_layernorm_weight l) (ff_ln_weight f)
           = Inr (post_attention_layernorm_weight l')"
    and "rotary_emb_inv_freqs l' = Some (hf_rot_emb_freqs hf)"
  by (rule copy_layer_InrD[OF assms], assumption)+

lemma copy_layers_InrD:
  "copy_layers hf ls i = Inr res \<Longrightarrow>
     length res = length ls \<and>
     (\<forall>j<length ls. i + j < length (hf_layers hf) \<and>
        copy_layer hf (hf_layers hf ! (i + j)) (ls ! j) = Inr (res ! j))"
proof (induction ls arbitrary: i res)
  case Nil
  then show ?case by simp
next
  case (Cons l ls)
  from Cons.prems obtain l' ls' where
    i: "i < length (hf_layers hf)" and
    l': "copy_layer hf (hf_layers hf ! i) l = Inr l'" and
    ls': "copy_layers hf ls (i + 1) = Inr ls'" and res: "res = l' # ls'"
    by (auto simp: ebind_eq_Inr split: if_splits)
  from Cons.IH[OF ls'] have len: "length ls' = length ls" and
    step: "\<And>j. j < length ls \<Longrightarrow> i + 1 + j < length (hf_layers hf) \<and>
        copy_layer hf (hf_layers hf ! (i + 1 + j)) (ls ! j) = Inr (ls' ! j)"
    by auto
  show ?case
  proof (intro conjI allI impI)
    show "length res = length (l # ls)" by (simp add: res len)
  next
    fix j assume j: "j < length (l # ls)"
    show "i + j < length (hf_layers hf)"
      using i step[of "j - 1"] j by (cases j) auto
    show "copy_layer hf (hf_layers hf ! (i + j)) ((l # ls) ! j) = Inr (res ! j)"
      using l' step[of "j - 1"] j by (cases j) (auto simp: res)
  qed
qed

lemma oss_hf_model_InrD:
  assumes "oss_hf_model hf oss = Inr res"
  shows "copy_inplace (embed_tokens_weight oss) (hf_embedding_weight hf)
           = Inr (embed_tokens_weight res)"
    and "copy_layers hf (model_layers oss) 0 = Inr (model_layers res)"
    and "model_norm_weight res = hf_dec_norm_weight hf"
    and "lm_head_weight res = hf_lm_head_weight hf"
  using assms unfolding oss_hf_model_def ebind_eq_Inr by auto

lemma oss_hf_model_layer:
  assumes "oss_hf_model hf oss = Inr res" and "i < length (model_layers oss)"
  shows "length (model_layers res) = length (model_layers oss)"
    and "i < length (hf_layers hf)"
    and "copy_layer hf (hf_layers hf ! i) (model_layers oss ! i) = Inr (model_layers res ! i)"
  using copy_layers_InrD[OF oss_hf_model_InrD(2)[OF assms(1)]] assms(2) by auto


lemma infer_size_view:
  assumes "infer_size [nh, -1, 2, int C] N = Inr s"
  shows "0 < nh \<and> 0 < C \<and> (nat nh * 2 * C) dvd N \<and> s = [nat nh, N div (nat nh * 2 * C), 2, C]"
proof -
  have nn: "0 \<le> nh" "nh \<noteq> -1"
    using assms by (auto simp: infer_size_def split: if_splits)
  then have sc: "infer_scan [nh, -1, 2, int C] 0 1 None = Inr (nat nh * 2 * C, Some 1)"
    by simp
  have pos: "nat nh * 2 * C \<noteq> 0" and s: "s = [nat nh, N div (nat nh * 2 * C), 2, C]"
    and d: "N = nat nh * 2 * C \<or> N mod (nat nh * 2 * C) = 0"
    using assms unfolding infer_size_def sc by (auto split: if_splits)
  from d have "(nat nh * 2 * C) dvd N" by auto
  then show ?thesis using pos s nn by auto
qed

lemma adjust_InrD:
  assumes "adjust nh q = Inr q'" and sh: "shape q = [R, C]"
  obtains n h where "nh = int n" "0 < n" "0 < C" "R = n * (2 * h)"
proof -
  from assms(1) obtain s where s: "infer_size [nh, -1, 2, int C] (numel q) = Inr s"
    unfolding adjust_def ebind_eq_Inr view_def by (auto simp: size_dim_def sh)
  from infer_size_view[OF s] have nh: "0 < nh" and C: "0 < C"
    and d: "(nat nh * 2 * C) dvd R * C" by (auto simp: numel_def sh)
  from d C have "nat nh * 2 dvd R" by simp
  then obtain h where "R = nat nh * 2 * h" by (auto elim: dvdE)
  then have "R = nat nh * (2 * h)" by simp
  moreover have "nh = int (nat nh)" "0 < nat nh" using nh by auto
  ultimately show ?thesis using that C by blast
qed

lemma div_half: "0 < n \<Longrightarrow> n * (2 * h) div (2 * n) = (h::nat)"
proof -
  assume "0 < n"
  have "n * (2 * h) = h * (2 * n)" by simp
  then show ?thesis using \<open>0 < n\<close> by (simp only: nonzero_mult_div_cancel_right)
qed

lemma wf_permuted: "wf_tensor \<lparr>shape = [R, C], data = permuted h R C xs\<rparr>"
  by (simp add: wf_tensor_def numel_def length_permuted)

text \<open>What a successful copy and adjustment of one projection weight yields.\<close>

lemma copy_adjust_copy:
  assumes c0: "copy_inplace dst w = Inr q0" and a: "adjust nh q0 = Inr q"
    and c1: "copy_inplace q0 q = Inr w'"
    and wf: "wf_tensor w" and same: "shape dst = shape w" and sh: "shape w = [R, C]"
  obtains n h where "nh = int n" "0 < n" "0 < C" "R = n * (2 * h)"
    "w' = \<lparr>shape = [R, C], data = permuted h R C (data w)\<rparr>"
proof -
  have q0: "q0 = w" using c0 copy_inplace_same_shape[OF wf same[symmetric]] by simp
  from adjust_InrD[OF a[unfolded q0] sh] obtain n h where
    n: "nh = int n" "0 < n" "0 < C" "R = n * (2 * h)" by blast
  have q: "q = \<lparr>shape = [R, C], data = permuted h R C (data w)\<rparr>"
    using a adjust_ok[of w n h C] n sh unfolding q0 by simp
  have "copy_inplace w q = Inr q"
    by (rule copy_inplace_same_shape) (simp_all add: q wf_permuted sh)
  then have "w' = q" using c1 unfolding q0 by simp
  then show ?thesis using that n q by blast
qed

lemma rows_permuted_permuted:
  assumes "0 < n" and sh: "shape w = [n * (2 * h), C]" and wf: "wf_tensor w"
  shows "rows_permuted n w \<lparr>shape = [n * (2 * h), C], data = permuted h (n * (2 * h)) C (data w)\<rparr>"
proof -
  have len: "length (data w) = n * (2 * h) * C"
    using wf by (simp add: wf_tensor_def numel_def sh)
  have w: "w = \<lparr>shape = [n * (2 * h), C], data = data w\<rparr>"
    using sh by (cases w) simp
  have "row \<lparr>shape = [n * (2 * h), C], data = permuted h (n * (2 * h)) C (data w)\<rparr> r
        = row w (row_perm h r)" if "r < n * (2 * h)" for r
    using row_permuted[OF len that] w by simp
  then show ?thesis
    unfolding rows_permuted_def by (simp add: sh div_half[OF assms(1)] row_perm_bij)
qed

section \<open>The copy succeeds on well-formed inputs\<close>

lemma permute_rows_eq:
  assumes "0 < n" "shape w = [n * (2 * h), C]"
  shows "permute_rows n w = \<lparr>shape = [n * (2 * h), C], data = permuted h (n * (2 * h)) C (data w)\<rparr>"
  using assms by (simp add: permute_rows_def div_half Let_def)

lemma adjustableD:
  assumes "adjustable nh w"
  obtains n h C where "nh = int n" "0 < n" "0 < C" "shape w = [n * (2 * h), C]"
proof -
  from assms have len: "length (shape w) = 2" and nh: "0 < nh"
    and d: "2 * nh dvd int (shape w ! 0)" and C: "0 < shape w ! 1"
    by (auto simp: adjustable_def)
  from len obtain R C' where sh: "shape w = [R, C']"
    by (cases "shape w"; cases "tl (shape w)") auto
  have "int (2 * nat nh) dvd int R" using d nh sh by simp
  then have "2 * nat nh dvd R" by (simp only: int_dvd_int_iff)
  then obtain h where "R = 2 * nat nh * h" by (auto elim: dvdE)
  then have "shape w = [nat nh * (2 * h), C']" using sh by simp
  moreover have "nh = int (nat nh)" "0 < nat nh" using nh by auto
  moreover have "0 < C'" using C sh by simp
  ultimately show ?thesis using that by blast
qed

lemma copy_adjust_copy_ok:
  assumes wf: "wf_tensor w" and same: "shape dst = shape w" and ad: "adjustable nh w"
  shows "ebind (copy_inplace dst w) (\<lambda>q0. ebind (adjust nh q0) (\<lambda>q. ebind (copy_inplace q0 q) f))
         = f (permute_rows (nat nh) w)"
proof -
  from adjustableD[OF ad] obtain n h C where
    n: "nh = int n" "0 < n" "0 < C" "shape w = [n * (2 * h), C]" by blast
  have c0: "copy_inplace dst w = Inr w"
    using copy_inplace_same_shape[OF wf same[symmetric]] .
  have p: "permute_rows (nat nh) w
      = \<lparr>shape = [n * (2 * h), C], data = permuted h (n * (2 * h)) C (data w)\<rparr>"
    using permute_rows_eq[OF n(2,4)] n(1) by simp
  have a: "adjust nh w = Inr (permute_rows (nat nh) w)"
    unfolding p using adjust_ok[OF n(4,2,3)] n(1) by simp
  have c1: "copy_inplace w (permute_rows (nat nh) w) = Inr (permute_rows (nat nh) w)"
    by (rule copy_inplace_same_shape) (simp_all add: p wf_permuted n(4))
  show ?thesis by (simp only: c0 a c1 ebind_Inr)
qed

lemma copy_layer_ok:
  assumes "layer_ok hf l f"
  shows "copy_layer hf f l = Inr (translate_layer hf f)"
proof -
  from assms have wf: "wf_fms_layer f" and ag: "layer_sizes_agree l f"
    and aq: "adjustable (hf_config_nheads hf) (attn_query_weight f)"
    and ak: "adjustable (hf_config_nheads hf) (attn_key_weight f)"
    by (simp_all add: layer_ok_def)
  have c: "copy_inplace (q_proj_weight l) (attn_query_weight f) = Inr (attn_query_weight f)"
    "copy_inplace (k_proj_weight l) (attn_key_weight f) = Inr (attn_key_weight f)"
    "copy_inplace (v_proj_weight l) (attn_value_weight f) = Inr (attn_value_weight f)"
    "copy_inplace (o_proj_weight l) (attn_dense_weight f) = Inr (attn_dense_weight f)"
    "copy_inplace (gate_proj_weight l) (ff_sub_layer_wg_weight f) = Inr (ff_sub_layer_wg_weight f)"
    "copy_inplace (up_proj_weight l) (ff_sub_layer_w1_weight f) = Inr (ff_sub_layer_w1_weight f)"
    "copy_inplace (down_proj_weight l) (ff_sub_layer_w2_weight f) = Inr (ff_sub_layer_w2_weight f)"
    "copy_inplace (input_layernorm_weight l) (ln_weight f) = Inr (ln_weight f)"
    "copy_inplace (post_attention_layernorm_weight l) (ff_ln_weight f) = Inr (ff_ln_weight f)"
    using wf ag unfolding wf_fms_layer_def layer_sizes_agree_def
    by (simp_all add: copy_inplace_same_shape)
  have q: "ebind (adjust (hf_config_nheads hf) (attn_query_weight f))
             (\<lambda>q. ebind (copy_inplace (attn_query_weight f) q) g)
           = g (permute_rows (nat (hf_config_nheads hf)) (attn_query_weight f))" for g :: "'a tensor \<Rightarrow> error + 'b"
    using copy_adjust_copy_ok[of "attn_query_weight f" "attn_query_weight f" "hf_config_nheads hf" g]
      wf aq copy_inplace_same_shape[of "attn_query_weight f" "attn_query_weight f"]
    by (simp add: wf_fms_layer_def ebind_Inr)
  have k: "ebind (adjust (hf_config_nheads hf) (attn_key_weight f))
             (\<lambda>q. ebind (copy_inplace (attn_key_weight f) q) g)
           = g (permute_rows (nat (hf_config_nheads hf)) (attn_key_weight f))" for g :: "'a tensor \<Rightarrow> error + 'b"
    using copy_adjust_copy_ok[of "attn_key_weight f" "attn_key_weight f" "hf_config_nheads hf" g]
      wf ak copy_inplace_same_shape[of "attn_key_weight f" "attn_key_weight f"]
    by (simp add: wf_fms_layer_def ebind_Inr)
  show ?thesis
    unfolding copy_layer_def c ebind_Inr q k translate_layer_def ..
qed

lemma copy_layers_ok:
  assumes "i + length ls \<le> length (hf_layers hf)"
    and "\<forall>j<length ls. layer_ok hf (ls ! j) (hf_layers hf ! (i + j))"
  shows "copy_layers hf ls i = Inr (map (translate_layer hf) (take (length ls) (drop i (hf_layers hf))))"
  using assms
proof (induction ls arbitrary: i)
  case Nil
  then show ?case by simp
next
  case (Cons l ls)
  have i: "i < length (hf_layers hf)" using Cons.prems(1) by simp
  have l: "copy_layer hf (hf_layers hf ! i) l = Inr (translate_layer hf (hf_layers hf ! i))"
    using Cons.prems(2) by (intro copy_layer_ok) force
  have "\<forall>j<length ls. layer_ok hf (ls ! j) (hf_layers hf ! (Suc i + j))"
    using Cons.prems(2) by force
  then have r: "copy_layers hf ls (Suc i)
      = Inr (map (translate_layer hf) (take (length ls) (drop (Suc i) (hf_layers hf))))"
    using Cons.prems(1) by (intro Cons.IH) simp_all
  have d: "drop i (hf_layers hf) = hf_layers hf ! i # drop (Suc i) (hf_layers hf)"
    using i by (simp add: Cons_nth_drop_Suc)
  show ?case
    using i by (simp add: l r ebind_Inr d del: drop_Suc)
qed

lemma oss_hf_model_translate:
  assumes "wf_tensor (hf_embedding_weight hf)"
    and "shape (embed_tokens_weight oss) = shape (hf_embedding_weight hf)"
    and "length (model_layers oss) = length (hf_layers hf)"
    and "\<forall>i<length (hf_layers hf). layer_ok hf (model_layers oss ! i) (hf_layers hf ! i)"
  shows "oss_hf_model hf oss = Inr (translate hf)"
proof -
  have e: "copy_inplace (embed_tokens_weight oss) (hf_embedding_weight hf)
      = Inr (hf_embedding_weight hf)"
    using assms(1,2) by (simp add: copy_inplace_same_shape)
  have l: "copy_layers hf (model_layers oss) 0 = Inr (map (translate_layer hf) (hf_layers hf))"
    using copy_layers_ok[of 0 "model_layers oss" hf] assms(3,4) by simp
  show ?thesis
    by (simp add: oss_hf_model_def e l ebind_Inr translate_def)
qed

section \<open>The permutation keeps the elements\<close>

lemma elem_perm_bij:
  assumes C: "0 < C"
  shows "bij_betw (\<lambda>m. row_perm h (m div C) * C + m mod C)
           {..<n * (2 * h) * C} {..<n * (2 * h) * C}"
proof (cases "h = 0")
  case True
  then show ?thesis by (simp add: bij_betw_def)
next
  case False
  then have h: "0 < h" by simp
  let ?R = "n * (2 * h)"
  have bound: "p * C + m mod C < ?R * C" if "p < ?R" for p m
  proof -
    have "Suc p * C \<le> ?R * C" using that by (intro mult_le_mono1) simp
    moreover have "m mod C < C" using C by simp
    ultimately show ?thesis by simp
  qed
  have dm: "(p * C + m mod C) div C = p" "(p * C + m mod C) mod C = m mod C" for p m
    using C by simp_all
  have r: "m div C < ?R" if "m < ?R * C" for m
    using that by (simp add: less_mult_imp_div_less)
  show ?thesis
  proof (rule bij_betw_byWitness[where f' = "\<lambda>m. row_perm_inv h (m div C) * C + m mod C"])
    show "\<forall>m\<in>{..<?R * C}.
        row_perm_inv h ((row_perm h (m div C) * C + m mod C) div C) * C
          + (row_perm h (m div C) * C + m mod C) mod C = m"
      by (simp add: dm row_perm_inv_row_perm[OF h])
    show "\<forall>m\<in>{..<?R * C}.
        row_perm h ((row_perm_inv h (m div C) * C + m mod C) div C) * C
          + (row_perm_inv h (m div C) * C + m mod C) mod C = m"
      by (simp add: dm row_perm_row_perm_inv[OF h])
    show "(\<lambda>m. row_perm h (m div C) * C + m mod C) ` {..<?R * C} \<subseteq> {..<?R * C}"
      using bound row_perm_less r by (auto simp del: mult_Suc)
    show "(\<lambda>m. row_perm_inv h (m div C) * C + m mod C) ` {..<?R * C} \<subseteq> {..<?R * C}"
      using bound row_perm_inv_less r by (auto simp del: mult_Suc)
  qed
qed

lemma mset_permuted:
  assumes len: "length xs = n * (2 * h) * C"
  shows "mset (permuted h (n * (2 * h)) C xs) = mset xs"
proof (cases "C = 0")
  case True
  then show ?thesis using len by (simp add: permuted_def)
next
  case False
  then have C: "0 < C" by simp
  let ?N = "n * (2 * h) * C"
  let ?s = "\<lambda>m. row_perm h (m div C) * C + m mod C"
  have b: "bij_betw ?s {..<?N} {..<?N}" by (rule elem_perm_bij[OF C])
  have "mset (permuted h (n * (2 * h)) C xs) = image_mset (\<lambda>m. xs ! ?s m) (mset [0..<?N])"
    unfolding permuted_def by (simp only: mset_map)
  also have "\<dots> = image_mset ((!) xs) (image_mset ?s (mset_set {..<?N}))"
    by (simp add: multiset.map_comp comp_def atLeast0LessThan)
  also have "image_mset ?s (mset_set {..<?N}) = mset_set {..<?N}"
    using b by (simp add: image_mset_mset_set bij_betw_def)
  also have "image_mset ((!) xs) (mset_set {..<?N}) = mset (map ((!) xs) [0..<?N])"
    by (simp add: atLeast0LessThan)
  also have "\<dots> = mset xs"
    using map_nth[of xs] len by simp
  finally show ?thesis .
qed

section \<open>The example inputs are well-formed\<close>

lemma wf_iota: "wf_tensor (iota s b)"
  by (simp add: wf_tensor_def numel_def iota_def)

lemma shape_iota: "shape (iota s b) = s"
  by (simp add: iota_def)

lemma shape_zeros: "shape (zeros s) = s"
  by (simp add: zeros_def)

lemma ex_layer_ok: "layer_ok (ex_hf ls) ex_oss_layer (ex_fms_layer b)"
  by (simp add: layer_ok_def wf_fms_layer_def layer_sizes_agree_def adjustable_def
      ex_fms_layer_def ex_oss_layer_def ex_hf_def wf_iota shape_iota shape_zeros)

lemma ex_translate:
  assumes "length ts = length bs" and "set ts \<subseteq> {ex_oss_layer}"
  shows "oss_hf_model (ex_hf (map ex_fms_layer bs)) (ex_oss ts)
       = Inr (translate (ex_hf (map ex_fms_layer bs)))"
proof (rule oss_hf_model_translate)
  let ?hf = "ex_hf (map ex_fms_layer bs)"
  show "wf_tensor (hf_embedding_weight ?hf)" by (simp add: ex_hf_def wf_iota)
  show "shape (embed_tokens_weight (ex_oss ts)) = shape (hf_embedding_weight ?hf)"
    by (simp add: ex_hf_def ex_oss_def shape_iota shape_zeros)
  show "length (model_layers (ex_oss ts)) = length (hf_layers ?hf)"
    using assms(1) by (simp add: ex_hf_def ex_oss_def)
  show "\<forall>i<length (hf_layers ?hf). layer_ok ?hf (model_layers (ex_oss ts) ! i) (hf_layers ?hf ! i)"
  proof (intro allI impI)
    fix i assume "i < length (hf_layers ?hf)"
    then have i: "i < length bs" by (simp add: ex_hf_def)
    then have "ts ! i = ex_oss_layer" using assms by (metis nth_mem singletonD subsetD)
    then show "layer_ok ?hf (model_layers (ex_oss ts) ! i) (hf_layers ?hf ! i)"
      using i ex_layer_ok[of "map ex_fms_layer bs" "bs ! i"] by (simp add: ex_hf_def ex_oss_def)
  qed
qed

lemma ex_translate1: "oss_hf_model ex_hf1 ex_oss1 = Inr (translate ex_hf1)"
  using ex_translate[of "[ex_oss_layer]" "[1000]"] by (simp add: ex_hf1_def ex_oss1_def)

lemma ex_hf_layers: "hf_layers ex_hf1 = [ex_fms_layer 1000]"
  by (simp add: ex_hf1_def ex_hf_def)

lemma ex_oss_layers: "model_layers ex_oss1 = [ex_oss_layer]"
  by (simp add: ex_oss1_def ex_oss_def)

lemma ex_layer_ok1: "layer_ok ex_hf1 (model_layers ex_oss1 ! 0) (hf_layers ex_hf1 ! 0)"
  unfolding ex_hf_layers ex_oss_layers by (simp add: ex_hf1_def ex_layer_ok)

section \<open>What a successful copy leaves in a layer\<close>

lemma shape2: "length (s::nat list) = 2 \<Longrightarrow> \<exists>R C. s = [R, C]"
  by (cases s; cases "tl s") auto

lemma weight_result:
  assumes c0: "copy_inplace dst w = Inr q0" and a: "adjust nh q0 = Inr q"
    and c1: "copy_inplace q0 q = Inr w'"
    and wf: "wf_tensor w" and same: "shape dst = shape w" and d: "length (shape w) = 2"
  obtains h C where "0 < nat nh" "shape w = [nat nh * (2 * h), C]"
    "w' = \<lparr>shape = [nat nh * (2 * h), C], data = permuted h (nat nh * (2 * h)) C (data w)\<rparr>"
proof -
  from shape2[OF d] obtain R C where sh: "shape w = [R, C]" by blast
  from copy_adjust_copy[OF c0 a c1 wf same sh] obtain n h where
    "nh = int n" "0 < n" "R = n * (2 * h)"
    "w' = \<lparr>shape = [R, C], data = permuted h R C (data w)\<rparr>" by blast
  then show ?thesis using that[of h C] sh by simp
qed

lemma layer_result:
  assumes run: "oss_hf_model hf oss = Inr res" and i: "i < length (model_layers oss)"
    and wf: "wf_fms_layer (hf_layers hf ! i)"
    and ag: "layer_sizes_agree (model_layers oss ! i) (hf_layers hf ! i)"
    and dq: "length (shape (attn_query_weight (hf_layers hf ! i))) = 2"
    and dk: "length (shape (attn_key_weight (hf_layers hf ! i))) = 2"
  obtains hq Cq hk Ck where "0 < nat (hf_config_nheads hf)"
    "shape (attn_query_weight (hf_layers hf ! i)) = [nat (hf_config_nheads hf) * (2 * hq), Cq]"
    "q_proj_weight (model_layers res ! i) =
       \<lparr>shape = [nat (hf_config_nheads hf) * (2 * hq), Cq],
        data = permuted hq (nat (hf_config_nheads hf) * (2 * hq)) Cq
                 (data (attn_query_weight (hf_layers hf ! i)))\<rparr>"
    "shape (attn_key_weight (hf_layers hf ! i)) = [nat (hf_config_nheads hf) * (2 * hk), Ck]"
    "k_proj_weight (model_layers res ! i) =
       \<lparr>shape = [nat (hf_config_nheads hf) * (2 * hk), Ck],
        data = permuted hk (nat (hf_config_nheads hf) * (2 * hk)) Ck
                 (data (attn_key_weight (hf_layers hf ! i)))\<rparr>"
proof -
  let ?f = "hf_layers hf ! i" and ?l = "model_layers oss ! i" and ?l' = "model_layers res ! i"
  have step: "copy_layer hf ?f ?l = Inr ?l'"
    using oss_hf_model_layer(3)[OF run i] .
  obtain q0 q where
    q: "copy_inplace (q_proj_weight ?l) (attn_query_weight ?f) = Inr q0"
      "adjust (hf_config_nheads hf) q0 = Inr q" "copy_inplace q0 q = Inr (q_proj_weight ?l')"
    by (rule copy_layer_q[OF step])
  obtain k0 k where
    k: "copy_inplace (k_proj_weight ?l) (attn_key_weight ?f) = Inr k0"
      "adjust (hf_config_nheads hf) k0 = Inr k" "copy_inplace k0 k = Inr (k_proj_weight ?l')"
    by (rule copy_layer_k[OF step])
  have wq: "wf_tensor (attn_query_weight ?f)" and wk: "wf_tensor (attn_key_weight ?f)"
    using wf by (simp_all add: wf_fms_layer_def)
  have aq: "shape (q_proj_weight ?l) = shape (attn_query_weight ?f)"
    and ak: "shape (k_proj_weight ?l) = shape (attn_key_weight ?f)"
    using ag by (simp_all add: layer_sizes_agree_def)
  show ?thesis
    by (rule weight_result[OF q wq aq dq], rule weight_result[OF k wk ak dk], rule that)
qed

section \<open>The claims about the weight translation\<close>

text \<open>
  C1. Whenever the copy succeeds, for every layer whose source Q and K weights are
  well-formed 2-D tensors and whose target is allocated with the same sizes: the Q
  (and the K) weight of the result has the rows of the source weight, regrouped from
  \<open>[nheads, head_dim/2, 2]\<close> to \<open>[nheads, 2, head_dim/2]\<close>. Each row of the result is a
  row of the source as it is (\<open>row w' r = row w (row_perm h r)\<close>), the size is that of the
  source, and the map of row indices is a bijection on \<open>[0, output_dim)\<close>.
\<close>

theorem qk_rows_permuted:
  assumes run: "oss_hf_model hf oss = Inr res" and i: "i < length (model_layers oss)"
    and wf: "wf_fms_layer (hf_layers hf ! i)"
    and ag: "layer_sizes_agree (model_layers oss ! i) (hf_layers hf ! i)"
    and dq: "length (shape (attn_query_weight (hf_layers hf ! i))) = 2"
    and dk: "length (shape (attn_key_weight (hf_layers hf ! i))) = 2"
  shows "rows_permuted (nat (hf_config_nheads hf)) (attn_query_weight (hf_layers hf ! i))
           (q_proj_weight (model_layers res ! i)) \<and>
         rows_permuted (nat (hf_config_nheads hf)) (attn_key_weight (hf_layers hf ! i))
           (k_proj_weight (model_layers res ! i))"
proof -
  have wq: "wf_tensor (attn_query_weight (hf_layers hf ! i))"
    and wk: "wf_tensor (attn_key_weight (hf_layers hf ! i))"
    using wf by (simp_all add: wf_fms_layer_def)
  from layer_result[OF assms] obtain hq Cq hk Ck where r: "0 < nat (hf_config_nheads hf)"
    "shape (attn_query_weight (hf_layers hf ! i)) = [nat (hf_config_nheads hf) * (2 * hq), Cq]"
    "q_proj_weight (model_layers res ! i) =
       \<lparr>shape = [nat (hf_config_nheads hf) * (2 * hq), Cq],
        data = permuted hq (nat (hf_config_nheads hf) * (2 * hq)) Cq
                 (data (attn_query_weight (hf_layers hf ! i)))\<rparr>"
    "shape (attn_key_weight (hf_layers hf ! i)) = [nat (hf_config_nheads hf) * (2 * hk), Ck]"
    "k_proj_weight (model_layers res ! i) =
       \<lparr>shape = [nat (hf_config_nheads hf) * (2 * hk), Ck],
        data = permuted hk (nat (hf_config_nheads hf) * (2 * hk)) Ck
                 (data (attn_key_weight (hf_layers hf ! i)))\<rparr>"
    by metis
  show ?thesis
    unfolding r(3,5)
    using rows_permuted_permuted[OF r(1,2) wq] rows_permuted_permuted[OF r(1,4) wk] by simp
qed

theorem qk_rows_permuted_witness:
  "oss_hf_model ex_hf1 ex_oss1 = Inr (translate ex_hf1) \<and>
   row (q_proj_weight (model_layers (translate ex_hf1) ! 0)) 1
     = row (attn_query_weight (hf_layers ex_hf1 ! 0)) 2 \<and>
   row (attn_query_weight (hf_layers ex_hf1 ! 0)) 2 = [1108, 1109, 1110, 1111] \<and>
   row (k_proj_weight (model_layers (translate ex_hf1) ! 0)) 2
     = row (attn_key_weight (hf_layers ex_hf1 ! 0)) 1 \<and>
   row (attn_key_weight (hf_layers ex_hf1 ! 0)) 1 = [1204, 1205, 1206, 1207]"
proof -
  have run: "oss_hf_model ex_hf1 ex_oss1 = Inr (translate ex_hf1)"
    by (rule ex_translate1)
  have i: "0 < length (model_layers ex_oss1)" by (simp add: ex_oss_layers)
  note ok = ex_layer_ok1
  have sq: "shape (attn_query_weight (hf_layers ex_hf1 ! 0)) = [4, 4]"
    and sk: "shape (attn_key_weight (hf_layers ex_hf1 ! 0)) = [4, 4]"
    unfolding ex_hf_layers by (simp_all add: ex_fms_layer_def shape_iota)
  have nh: "nat (hf_config_nheads ex_hf1) = 1" by (simp add: ex_hf1_def ex_hf_def)
  have p: "row_perm 2 1 = 2" "row_perm 2 2 = 1" by (simp_all add: row_perm_alt)
  note t = qk_rows_permuted[OF run i, unfolded rows_permuted_def Let_def nh sq sk]
  have "row (q_proj_weight (model_layers (translate ex_hf1) ! 0)) 1
          = row (attn_query_weight (hf_layers ex_hf1 ! 0)) 2"
    and "row (k_proj_weight (model_layers (translate ex_hf1) ! 0)) 2
          = row (attn_key_weight (hf_layers ex_hf1 ! 0)) 1"
    using t ok p by (simp_all add: layer_ok_def sq sk)
  moreover have "row (attn_query_weight (hf_layers ex_hf1 ! 0)) 2 = [1108, 1109, 1110, 1111]"
    and "row (attn_key_weight (hf_layers ex_hf1 ! 0)) 1 = [1204, 1205, 1206, 1207]"
    unfolding ex_hf_layers by (simp_all add: ex_fms_layer_def iota_def row_def upt_rec)
  ultimately show ?thesis using run by simp
qed

text \<open>
  C6. Whenever the copy succeeds, for every layer whose source Q and K weights are
  well-formed 2-D tensors and whose target is allocated with the same sizes: the Q and
  K weights of the result have the size of the source weights and hold the same
  elements, each as often as the source does (nothing is summed, rounded or dropped).
\<close>

theorem qk_shape_and_elements_kept:
  assumes run: "oss_hf_model hf oss = Inr res" and i: "i < length (model_layers oss)"
    and wf: "wf_fms_layer (hf_layers hf ! i)"
    and ag: "layer_sizes_agree (model_layers oss ! i) (hf_layers hf ! i)"
    and dq: "length (shape (attn_query_weight (hf_layers hf ! i))) = 2"
    and dk: "length (shape (attn_key_weight (hf_layers hf ! i))) = 2"
  shows "shape (q_proj_weight (model_layers res ! i))
           = shape (attn_query_weight (hf_layers hf ! i)) \<and>
         mset (data (q_proj_weight (model_layers res ! i)))
           = mset (data (attn_query_weight (hf_layers hf ! i))) \<and>
         shape (k_proj_weight (model_layers res ! i))
           = shape (attn_key_weight (hf_layers hf ! i)) \<and>
         mset (data (k_proj_weight (model_layers res ! i)))
           = mset (data (attn_key_weight (hf_layers hf ! i)))"
proof -
  have wq: "wf_tensor (attn_query_weight (hf_layers hf ! i))"
    and wk: "wf_tensor (attn_key_weight (hf_layers hf ! i))"
    using wf by (simp_all add: wf_fms_layer_def)
  from layer_result[OF assms] obtain hq Cq hk Ck where r: "0 < nat (hf_config_nheads hf)"
    "shape (attn_query_weight (hf_layers hf ! i)) = [nat (hf_config_nheads hf) * (2 * hq), Cq]"
    "q_proj_weight (model_layers res ! i) =
       \<lparr>shape = [nat (hf_config_nheads hf) * (2 * hq), Cq],
        data = permuted hq (nat (hf_config_nheads hf) * (2 * hq)) Cq
                 (data (attn_query_weight (hf_layers hf ! i)))\<rparr>"
    "shape (attn_key_weight (hf_layers hf ! i)) = [nat (hf_config_nheads hf) * (2 * hk), Ck]"
    "k_proj_weight (model_layers res ! i) =
       \<lparr>shape = [nat (hf_config_nheads hf) * (2 * hk), Ck],
        data = permuted hk (nat (hf_config_nheads hf) * (2 * hk)) Ck
                 (data (attn_key_weight (hf_layers hf ! i)))\<rparr>"
    by metis
  have lq: "length (data (attn_query_weight (hf_layers hf ! i)))
      = nat (hf_config_nheads hf) * (2 * hq) * Cq"
    using wq by (simp add: wf_tensor_def numel_def r(2))
  have lk: "length (data (attn_key_weight (hf_layers hf ! i)))
      = nat (hf_config_nheads hf) * (2 * hk) * Ck"
    using wk by (simp add: wf_tensor_def numel_def r(4))
  show ?thesis
    unfolding r(3,5) using mset_permuted[OF lq] mset_permuted[OF lk] r(2,4) by simp
qed

theorem qk_shape_and_elements_kept_witness:
  "oss_hf_model ex_hf1 ex_oss1 = Inr (translate ex_hf1) \<and>
   shape (q_proj_weight (model_layers (translate ex_hf1) ! 0)) = [4, 4] \<and>
   mset (data (q_proj_weight (model_layers (translate ex_hf1) ! 0)))
     = mset (data (iota [4, 4] 1100)) \<and>
   shape (k_proj_weight (model_layers (translate ex_hf1) ! 0)) = [4, 4] \<and>
   mset (data (k_proj_weight (model_layers (translate ex_hf1) ! 0)))
     = mset (data (iota [4, 4] 1200))"
proof -
  have run: "oss_hf_model ex_hf1 ex_oss1 = Inr (translate ex_hf1)"
    by (rule ex_translate1)
  have i: "0 < length (model_layers ex_oss1)" by (simp add: ex_oss_layers)
  note ok = ex_layer_ok1
  have q: "attn_query_weight (hf_layers ex_hf1 ! 0) = iota [4, 4] 1100"
    and k: "attn_key_weight (hf_layers ex_hf1 ! 0) = iota [4, 4] 1200"
    unfolding ex_hf_layers by (simp_all add: ex_fms_layer_def)
  have wf: "wf_fms_layer (hf_layers ex_hf1 ! 0)"
    and ag: "layer_sizes_agree (model_layers ex_oss1 ! 0) (hf_layers ex_hf1 ! 0)"
    using ok by (simp_all add: layer_ok_def)
  have dq: "length (shape (attn_query_weight (hf_layers ex_hf1 ! 0))) = 2"
    and dk: "length (shape (attn_key_weight (hf_layers ex_hf1 ! 0))) = 2"
    unfolding q k by (simp_all add: shape_iota)
  show ?thesis
    using qk_shape_and_elements_kept[OF run i wf ag dq dk] run
    unfolding q k by (simp add: shape_iota)
qed

text \<open>
  C3. Whenever the copy succeeds from a well-formed source into a target allocated with
  the sizes of the source: the embedding, the final norm and the output head of the
  result are those of the source, and in every layer the V, O, gate, up and down
  weights, both layer norms and the rotary frequencies are those of the source, size
  and elements.
\<close>

theorem other_tensors_unchanged:
  assumes run: "oss_hf_model hf oss = Inr res"
    and we: "wf_tensor (hf_embedding_weight hf)"
    and se: "shape (embed_tokens_weight oss) = shape (hf_embedding_weight hf)"
    and ls: "\<forall>i<length (model_layers oss).
           wf_fms_layer (hf_layers hf ! i) \<and>
           layer_sizes_agree (model_layers oss ! i) (hf_layers hf ! i)"
  shows "embed_tokens_weight res = hf_embedding_weight hf \<and>
         model_norm_weight res = hf_dec_norm_weight hf \<and>
         lm_head_weight res = hf_lm_head_weight hf \<and>
         length (model_layers res) = length (model_layers oss) \<and>
         (\<forall>i<length (model_layers res).
            v_proj_weight (model_layers res ! i) = attn_value_weight (hf_layers hf ! i) \<and>
            o_proj_weight (model_layers res ! i) = attn_dense_weight (hf_layers hf ! i) \<and>
            gate_proj_weight (model_layers res ! i) = ff_sub_layer_wg_weight (hf_layers hf ! i) \<and>
            up_proj_weight (model_layers res ! i) = ff_sub_layer_w1_weight (hf_layers hf ! i) \<and>
            down_proj_weight (model_layers res ! i) = ff_sub_layer_w2_weight (hf_layers hf ! i) \<and>
            input_layernorm_weight (model_layers res ! i) = ln_weight (hf_layers hf ! i) \<and>
            post_attention_layernorm_weight (model_layers res ! i) = ff_ln_weight (hf_layers hf ! i) \<and>
            rotary_emb_inv_freqs (model_layers res ! i) = Some (hf_rot_emb_freqs hf))"
proof -
  have e: "embed_tokens_weight res = hf_embedding_weight hf"
    using oss_hf_model_InrD(1)[OF run] copy_inplace_same_shape[OF we se[symmetric]] by simp
  have len: "length (model_layers res) = length (model_layers oss)"
    using copy_layers_InrD[OF oss_hf_model_InrD(2)[OF run]] by simp
  have layer: "v_proj_weight (model_layers res ! i) = attn_value_weight (hf_layers hf ! i) \<and>
      o_proj_weight (model_layers res ! i) = attn_dense_weight (hf_layers hf ! i) \<and>
      gate_proj_weight (model_layers res ! i) = ff_sub_layer_wg_weight (hf_layers hf ! i) \<and>
      up_proj_weight (model_layers res ! i) = ff_sub_layer_w1_weight (hf_layers hf ! i) \<and>
      down_proj_weight (model_layers res ! i) = ff_sub_layer_w2_weight (hf_layers hf ! i) \<and>
      input_layernorm_weight (model_layers res ! i) = ln_weight (hf_layers hf ! i) \<and>
      post_attention_layernorm_weight (model_layers res ! i) = ff_ln_weight (hf_layers hf ! i) \<and>
      rotary_emb_inv_freqs (model_layers res ! i) = Some (hf_rot_emb_freqs hf)"
    if i: "i < length (model_layers oss)" for i
  proof -
    have wf: "wf_fms_layer (hf_layers hf ! i)"
      and ag: "layer_sizes_agree (model_layers oss ! i) (hf_layers hf ! i)"
      using ls i by simp_all
    note f = copy_layer_frame[OF oss_hf_model_layer(3)[OF run i]]
    show ?thesis
      using f wf ag unfolding wf_fms_layer_def layer_sizes_agree_def
      by (simp add: copy_inplace_same_shape)
  qed
  show ?thesis
    using e len layer oss_hf_model_InrD(3,4)[OF run] by simp
qed

theorem other_tensors_unchanged_witness:
  "oss_hf_model ex_hf1 ex_oss1 = Inr (translate ex_hf1) \<and>
   embed_tokens_weight (translate ex_hf1) = iota [3, 4] 10 \<and>
   model_norm_weight (translate ex_hf1) = iota [4] 40 \<and>
   lm_head_weight (translate ex_hf1) = iota [3, 4] 50 \<and>
   v_proj_weight (model_layers (translate ex_hf1) ! 0) = iota [4, 4] 1300 \<and>
   o_proj_weight (model_layers (translate ex_hf1) ! 0) = iota [4, 4] 1400 \<and>
   gate_proj_weight (model_layers (translate ex_hf1) ! 0) = iota [2, 4] 1500 \<and>
   up_proj_weight (model_layers (translate ex_hf1) ! 0) = iota [2, 4] 1600 \<and>
   down_proj_weight (model_layers (translate ex_hf1) ! 0) = iota [4, 2] 1700 \<and>
   input_layernorm_weight (model_layers (translate ex_hf1) ! 0) = iota [4] 1800 \<and>
   post_attention_layernorm_weight (model_layers (translate ex_hf1) ! 0) = iota [4] 1900 \<and>
   rotary_emb_inv_freqs (model_layers (translate ex_hf1) ! 0) = Some (iota [2] 30)"
proof -
  have run: "oss_hf_model ex_hf1 ex_oss1 = Inr (translate ex_hf1)"
    by (rule ex_translate1)
  have we: "wf_tensor (hf_embedding_weight ex_hf1)" by (simp add: ex_hf1_def ex_hf_def wf_iota)
  have se: "shape (embed_tokens_weight ex_oss1) = shape (hf_embedding_weight ex_hf1)"
    by (simp add: ex_hf1_def ex_oss1_def ex_hf_def ex_oss_def shape_iota shape_zeros)
  note ok = ex_layer_ok1
  have ls: "\<forall>i<length (model_layers ex_oss1).
      wf_fms_layer (hf_layers ex_hf1 ! i) \<and>
      layer_sizes_agree (model_layers ex_oss1 ! i) (hf_layers ex_hf1 ! i)"
    using ok unfolding ex_oss_layers by (simp add: layer_ok_def)
  have len: "0 < length (model_layers (translate ex_hf1))"
    unfolding translate_def ex_hf_layers by simp
  note t = other_tensors_unchanged[OF run we se ls]
  have l0: "hf_layers ex_hf1 ! 0 = ex_fms_layer 1000" unfolding ex_hf_layers by simp
  have top: "hf_embedding_weight ex_hf1 = iota [3, 4] 10"
    "hf_dec_norm_weight ex_hf1 = iota [4] 40" "hf_lm_head_weight ex_hf1 = iota [3, 4] 50"
    "hf_rot_emb_freqs ex_hf1 = iota [2] 30"
    by (simp_all add: ex_hf1_def ex_hf_def)
  from t len have t0:
    "v_proj_weight (model_layers (translate ex_hf1) ! 0) = attn_value_weight (hf_layers ex_hf1 ! 0)"
    "o_proj_weight (model_layers (translate ex_hf1) ! 0) = attn_dense_weight (hf_layers ex_hf1 ! 0)"
    "gate_proj_weight (model_layers (translate ex_hf1) ! 0) = ff_sub_layer_wg_weight (hf_layers ex_hf1 ! 0)"
    "up_proj_weight (model_layers (translate ex_hf1) ! 0) = ff_sub_layer_w1_weight (hf_layers ex_hf1 ! 0)"
    "down_proj_weight (model_layers (translate ex_hf1) ! 0) = ff_sub_layer_w2_weight (hf_layers ex_hf1 ! 0)"
    "input_layernorm_weight (model_layers (translate ex_hf1) ! 0) = ln_weight (hf_layers ex_hf1 ! 0)"
    "post_attention_layernorm_weight (model_layers (translate ex_hf1) ! 0) = ff_ln_weight (hf_layers ex_hf1 ! 0)"
    "rotary_emb_inv_freqs (model_layers (translate ex_hf1) ! 0) = Some (hf_rot_emb_freqs ex_hf1)"
    by blast+
  show ?thesis
    using t run t0 unfolding l0 top by (simp add: ex_fms_layer_def)
qed

subsection \<open>Rows that the head count does not divide\<close>






subsection \<open>Layer counts that differ\<close>

lemma copy_layer_hf_layers [simp]:
  "copy_layer (hf\<lparr>hf_layers := x\<rparr>) f l = copy_layer hf f l"
  by (simp add: copy_layer_def)

lemma copy_layers_take:
  "i + length ls \<le> m \<Longrightarrow>
   copy_layers (hf\<lparr>hf_layers := take m (hf_layers hf)\<rparr>) ls i = copy_layers hf ls i"
proof (induction ls arbitrary: i)
  case Nil
  then show ?case by simp
next
  case (Cons l ls)
  then have "i < m" and "Suc i + length ls \<le> m" by simp_all
  then show ?case using Cons.IH[of "Suc i"] by simp
qed

lemma fewer_target_layers:
  assumes "length (model_layers oss) \<le> length (hf_layers hf)"
  shows "oss_hf_model hf oss
       = oss_hf_model (hf\<lparr>hf_layers := take (length (model_layers oss)) (hf_layers hf)\<rparr>) oss"
  using copy_layers_take[of 0 "model_layers oss" "length (model_layers oss)" hf]
  by (simp add: oss_hf_model_def)

lemma copy_layers_append:
  "copy_layers hf (xs @ ys) i =
     ebind (copy_layers hf xs i) (\<lambda>a.
     ebind (copy_layers hf ys (i + length xs)) (\<lambda>b. Inr (a @ b)))"
proof (induction xs arbitrary: i)
  case Nil
  show ?case by (cases "copy_layers hf ys i") (simp_all add: ebind_def)
next
  case (Cons x xs)
  show ?case
    by (simp add: Cons.IH ebind_def split: sum.splits)
qed

lemma copy_layers_past_end:
  assumes "length (hf_layers hf) \<le> i" "ls \<noteq> []"
  shows "copy_layers hf ls i = Inl IndexError"
  using assms by (cases ls) simp_all

lemma more_target_layers:
  assumes more: "length (hf_layers hf) < length (model_layers oss)"
  shows "\<exists>e. oss_hf_model hf oss = Inl e"
    and "oss_hf_model hf (oss\<lparr>model_layers := take (length (hf_layers hf)) (model_layers oss)\<rparr>) = Inr r
         \<Longrightarrow> oss_hf_model hf oss = Inl IndexError"
proof -
  let ?m = "length (hf_layers hf)"
  let ?a = "take ?m (model_layers oss)" and ?b = "drop ?m (model_layers oss)"
  have b: "?b \<noteq> []" and la: "length ?a = ?m" using more by simp_all
  have "copy_layers hf (?a @ ?b) 0 =
      ebind (copy_layers hf ?a 0) (\<lambda>a. ebind (copy_layers hf ?b (0 + length ?a)) (\<lambda>b. Inr (a @ b)))"
    by (rule copy_layers_append)
  also have "copy_layers hf ?b (0 + length ?a) = Inl IndexError"
    using b la by (intro copy_layers_past_end) simp_all
  finally have split: "copy_layers hf (model_layers oss) 0 =
      ebind (copy_layers hf ?a 0) (\<lambda>a. Inl IndexError)"
    by (simp add: ebind_Inl)
  show "\<exists>e. oss_hf_model hf oss = Inl e"
    unfolding oss_hf_model_def split
    by (cases "copy_inplace (embed_tokens_weight oss) (hf_embedding_weight hf)";
        cases "copy_layers hf ?a 0") (simp_all add: ebind_def)
  assume "oss_hf_model hf (oss\<lparr>model_layers := ?a\<rparr>) = Inr r"
  then obtain e ls where "copy_inplace (embed_tokens_weight oss) (hf_embedding_weight hf) = Inr e"
    "copy_layers hf ?a 0 = Inr ls"
    unfolding oss_hf_model_def ebind_eq_Inr by auto
  then show "oss_hf_model hf oss = Inl IndexError"
    unfolding oss_hf_model_def split by (simp add: ebind_def)
qed

text \<open>
  C5 (as amended). The copy checks no layer count. When the target has more layers than
  the source, the copy ends in an exception and returns no model; the exception is the
  IndexError of reading the missing source layer whenever the copy into the first
  \<open>len(source)\<close> target layers succeeds. When the target has fewer layers, no exception
  is raised for it: the outcome is that for the source cut to its first \<open>len(target)\<close>
  layers.
\<close>

theorem layer_counts_differ:
  "(length (hf_layers hf) < length (model_layers oss) \<longrightarrow>
      (\<exists>e. oss_hf_model hf oss = Inl e) \<and>
      (\<forall>r. oss_hf_model hf (oss\<lparr>model_layers := take (length (hf_layers hf)) (model_layers oss)\<rparr>) = Inr r
         \<longrightarrow> oss_hf_model hf oss = Inl IndexError)) \<and>
   (length (model_layers oss) \<le> length (hf_layers hf) \<longrightarrow>
      oss_hf_model hf oss
        = oss_hf_model (hf\<lparr>hf_layers := take (length (model_layers oss)) (hf_layers hf)\<rparr>) oss)"
  using more_target_layers[of hf oss] fewer_target_layers[of oss hf] by blast

lemma ex_hf_take: "ex_hf2\<lparr>hf_layers := take (length (model_layers ex_oss1)) (hf_layers ex_hf2)\<rparr> = ex_hf1"
  by (simp add: ex_hf1_def ex_hf2_def ex_hf_def ex_oss_layers)

lemma ex_oss_take: "ex_oss2\<lparr>model_layers := take (length (hf_layers ex_hf1)) (model_layers ex_oss2)\<rparr> = ex_oss1"
  by (simp add: ex_oss1_def ex_oss2_def ex_oss_def ex_hf_layers)

lemma ex_lengths:
  "length (hf_layers ex_hf1) = 1" "length (model_layers ex_oss2) = 2"
  "length (hf_layers ex_hf2) = 2" "length (model_layers ex_oss1) = 1"
  by (simp_all add: ex_hf1_def ex_hf2_def ex_oss1_def ex_oss2_def ex_hf_def ex_oss_def)

text \<open>
  Two source layers, one target layer: the first source layer is translated, the second
  is left out, and no exception is raised.
\<close>

theorem layer_counts_differ_counterexample:
  "length (hf_layers ex_hf2) = 2 \<and> length (model_layers ex_oss1) = 1 \<and>
   oss_hf_model ex_hf2 ex_oss1 = Inr (translate ex_hf1)"
proof -
  have le: "length (model_layers ex_oss1) \<le> length (hf_layers ex_hf2)"
    by (simp add: ex_lengths)
  have "oss_hf_model ex_hf2 ex_oss1 = oss_hf_model ex_hf1 ex_oss1"
    using fewer_target_layers[OF le] unfolding ex_hf_take .
  then show ?thesis using ex_translate1 by (simp add: ex_lengths)
qed

theorem layer_counts_differ_witness:
  "length (hf_layers ex_hf1) < length (model_layers ex_oss2) \<and>
   oss_hf_model ex_hf1 ex_oss2 = Inl IndexError \<and>
   length (model_layers ex_oss1) \<le> length (hf_layers ex_hf2) \<and>
   oss_hf_model ex_hf2 ex_oss1 = oss_hf_model ex_hf1 ex_oss1"
proof -
  have run: "oss_hf_model ex_hf1
      (ex_oss2\<lparr>model_layers := take (length (hf_layers ex_hf1)) (model_layers ex_oss2)\<rparr>)
      = Inr (translate ex_hf1)"
    unfolding ex_oss_take by (rule ex_translate1)
  have l: "length (hf_layers ex_hf1) < length (model_layers ex_oss2)"
    "length (model_layers ex_oss1) \<le> length (hf_layers ex_hf2)"
    by (simp_all add: ex_lengths)
  have "oss_hf_model ex_hf1 ex_oss2 = Inl IndexError"
    using layer_counts_differ[of ex_hf1 ex_oss2] run l(1) by blast
  moreover have "oss_hf_model ex_hf2 ex_oss1 = oss_hf_model ex_hf1 ex_oss1"
    using layer_counts_differ[of ex_hf2 ex_oss1] l(2) unfolding ex_hf_take by blast
  ultimately show ?thesis using l by simp
qed

subsection \<open>The copy as a whole\<close>

lemma hf_layers_ex_hf: "hf_layers (ex_hf ls) = ls"
  by (simp add: ex_hf_def)

lemma model_layers_ex_oss: "model_layers (ex_oss ls) = ls"
  by (simp add: ex_oss_def)

text \<open>
  X1. From a well-formed source into a target allocated with the sizes of the source,
  with as many layers, and with Q and K weights that the head count divides into heads
  of even size, the copy succeeds, and the model it returns is \<open>translate\<close> of the source:
  the code does what section 4.1 of the specification describes.
\<close>

theorem copy_is_translate:
  assumes "wf_tensor (hf_embedding_weight hf)"
    and "shape (embed_tokens_weight oss) = shape (hf_embedding_weight hf)"
    and "length (model_layers oss) = length (hf_layers hf)"
    and "\<forall>i<length (hf_layers hf). layer_ok hf (model_layers oss ! i) (hf_layers hf ! i)"
  shows "oss_hf_model hf oss = Inr (translate hf)"
  using assms by (rule oss_hf_model_translate)

theorem copy_is_translate_witness:
  "length (model_layers ex_oss2) = length (hf_layers ex_hf2) \<and>
   oss_hf_model ex_hf2 ex_oss2 = Inr (translate ex_hf2) \<and>
   length (model_layers (translate ex_hf2)) = 2 \<and>
   data (q_proj_weight (model_layers (translate ex_hf2) ! 1))
     = [2100, 2101, 2102, 2103, 2108, 2109, 2110, 2111,
        2104, 2105, 2106, 2107, 2112, 2113, 2114, 2115]"
proof -
  have we: "wf_tensor (hf_embedding_weight ex_hf2)"
    by (simp add: ex_hf2_def ex_hf_def wf_iota)
  have se: "shape (embed_tokens_weight ex_oss2) = shape (hf_embedding_weight ex_hf2)"
    by (simp add: ex_hf2_def ex_oss2_def ex_hf_def ex_oss_def shape_iota shape_zeros)
  have len: "length (model_layers ex_oss2) = length (hf_layers ex_hf2)"
    by (simp add: ex_lengths)
  have ok: "\<forall>i<length (hf_layers ex_hf2).
      layer_ok ex_hf2 (model_layers ex_oss2 ! i) (hf_layers ex_hf2 ! i)"
    unfolding ex_hf2_def ex_oss2_def hf_layers_ex_hf model_layers_ex_oss
    by (simp add: ex_layer_ok nth_Cons' numeral_2_eq_2 less_Suc_eq)
  have run: "oss_hf_model ex_hf2 ex_oss2 = Inr (translate ex_hf2)"
    by (rule copy_is_translate[OF we se len ok])
  have "length (model_layers (translate ex_hf2)) = 2"
    by (simp add: translate_def ex_lengths)
  moreover have "data (q_proj_weight (model_layers (translate ex_hf2) ! 1))
     = [2100, 2101, 2102, 2103, 2108, 2109, 2110, 2111,
        2104, 2105, 2106, 2107, 2112, 2113, 2114, 2115]"
    unfolding translate_def ex_hf2_def hf_layers_ex_hf
    by (simp add: translate_layer_def permute_rows_def ex_hf_def ex_fms_layer_def iota_def
        permuted_def row_perm_alt upt_rec)
  ultimately show ?thesis using len run by simp
qed

section \<open>Adjusting twice\<close>

lemma row_perm_twice:
  assumes "0 < h" "h \<le> 2"
  shows "row_perm h (row_perm h r) = r"
proof -
  from assms have "h = 1 \<or> h = 2" by auto
  then show ?thesis
  proof
    assume "h = 1"
    then show ?thesis by (simp add: row_perm_alt)
  next
    assume h: "h = 2"
    have "row_perm 2 x = row_perm_inv 2 x" for x
      by (simp add: row_perm_alt row_perm_inv_alt)
    then show ?thesis using row_perm_inv_row_perm[of 2 r] h by simp
  qed
qed

lemma permuted_twice:
  assumes len: "length xs = n * (2 * h) * C" and h: "h \<le> 2"
  shows "permuted h (n * (2 * h)) C (permuted h (n * (2 * h)) C xs) = xs"
proof (cases "h = 0 \<or> C = 0")
  case True
  then show ?thesis using len by (auto simp: permuted_def)
next
  case False
  then have h0: "0 < h" and C: "0 < C" by simp_all
  let ?R = "n * (2 * h)"
  have inner: "permuted h ?R C (permuted h ?R C xs) ! m = xs ! m" if m: "m < ?R * C" for m
  proof -
    have r: "m div C < ?R" using m by (simp add: less_mult_imp_div_less)
    then have p: "row_perm h (m div C) < ?R" by (rule row_perm_less)
    then have "Suc (row_perm h (m div C)) * C \<le> ?R * C" by (intro mult_le_mono1) simp
    moreover have "m mod C < C" using C by simp
    ultimately have b: "row_perm h (m div C) * C + m mod C < ?R * C" by simp
    have "permuted h ?R C (permuted h ?R C xs) ! m
        = permuted h ?R C xs ! (row_perm h (m div C) * C + m mod C)"
      using m by (simp add: permuted_def)
    also have "\<dots> = xs ! (row_perm h (row_perm h (m div C)) * C + m mod C)"
      using b C by (simp add: permuted_def)
    also have "\<dots> = xs ! m"
      by (simp add: row_perm_twice[OF h0 h])
    finally show ?thesis .
  qed
  show ?thesis
    by (rule nth_equalityI) (simp_all add: length_permuted len inner)
qed

text \<open>
  C2 (as amended). For a well-formed 2-D weight whose rows fall into \<open>n\<close> heads of 2 or 4
  rows (half the head dimension is at most 2), adjusting twice with \<open>n\<close> heads gives the
  weight back, size and elements. (For larger heads the permutation is not its own
  inverse: see the counterexample, one head of 6 rows.)
\<close>

theorem adjust_twice:
  assumes wf: "wf_tensor q" and sh: "shape q = [n * (2 * h), C]"
    and n: "0 < n" and C: "0 < C" and h: "h \<le> 2"
  shows "ebind (adjust (int n) q) (adjust (int n)) = Inr q"
proof -
  let ?R = "n * (2 * h)"
  let ?q1 = "\<lparr>shape = [?R, C], data = permuted h ?R C (data q)\<rparr>"
  have len: "length (data q) = ?R * C" using wf by (simp add: wf_tensor_def numel_def sh)
  have a1: "adjust (int n) q = Inr ?q1" by (rule adjust_ok[OF sh n C])
  have a2: "adjust (int n) ?q1
      = Inr \<lparr>shape = [?R, C], data = permuted h ?R C (permuted h ?R C (data q))\<rparr>"
    using adjust_ok[of ?q1 n h C] n C by simp
  have "\<lparr>shape = [?R, C], data = permuted h ?R C (permuted h ?R C (data q))\<rparr> = q"
    using permuted_twice[OF len h] sh by (cases q) simp
  then show ?thesis by (simp only: a1 a2 ebind_Inr)
qed

theorem adjust_twice_witness:
  "wf_tensor (iota [4, 4] 0) \<and> ebind (adjust 1 (iota [4, 4] 0)) (adjust 1) = Inr (iota [4, 4] 0)"
proof -
  have sh: "shape (iota [4, 4] 0) = [1 * (2 * 2), 4]" by (simp add: shape_iota)
  show ?thesis
    using adjust_twice[OF wf_iota sh] wf_iota[of "[4, 4]" 0] by simp
qed

text \<open>
  One head of 6 rows (hidden size 6): adjusted twice, the rows come in the order
  0, 4, 3, 2, 1, 5.
\<close>

theorem adjust_twice_counterexample:
  "wf_tensor (iota [6, 6] 0) \<and>
   ebind (adjust 1 (iota [6, 6] 0)) (adjust 1)
     = Inr \<lparr>shape = [6, 6],
            data = [0, 1, 2, 3, 4, 5, 24, 25, 26, 27, 28, 29, 18, 19, 20, 21, 22, 23,
                    12, 13, 14, 15, 16, 17, 6, 7, 8, 9, 10, 11, 30, 31, 32, 33, 34, 35]\<rparr> \<and>
   ebind (adjust 1 (iota [6, 6] 0)) (adjust 1) \<noteq> Inr (iota [6, 6] 0)"
  by code_simp

text \<open>
  X2. The map of row indices has the inverse \<open>row_perm_inv\<close> (the rows seen as
  \<open>[nheads, 2, head_dim/2]\<close> and regrouped to \<open>[nheads, head_dim/2, 2]\<close>): translating
  back takes that map, not the same one again.
\<close>

theorem row_perm_inverse:
  assumes "0 < h"
  shows "row_perm_inv h (row_perm h r) = r \<and> row_perm h (row_perm_inv h r) = r"
  using row_perm_inv_row_perm[OF assms] row_perm_row_perm_inv[OF assms] by simp

theorem row_perm_inverse_witness:
  "(0::nat) < 3 \<and> row_perm 3 1 = 2 \<and> row_perm_inv 3 2 = 1 \<and> row_perm 3 2 = 4 \<and> row_perm_inv 3 4 = 2"
proof -
  have h: "(0::nat) < 3" by simp
  have p: "row_perm 3 1 = 2" "row_perm 3 2 = 4" by (simp_all add: row_perm_alt)
  from row_perm_inverse[OF h, of 1] row_perm_inverse[OF h, of 2]
  have "row_perm_inv 3 2 = 1" "row_perm_inv 3 4 = 2" unfolding p by simp_all
  then show ?thesis using p by simp
qed

section \<open>The claims about \<open>LLaMAHFConfig\<close>\<close>

lemma rename_pad_id_Some:
  assumes "config_dict ''pad_id'' = Some v"
  shows "rename_pad_id config_dict = Inr ((config_dict(''pad_id'' := None))(''pad_token_id'' \<mapsto> v))"
  using assms by (simp add: rename_pad_id_def pop_def ebind_def)

lemma rename_pad_id_None:
  assumes "config_dict ''pad_id'' = None"
  shows "rename_pad_id config_dict = Inl KeyError"
  using assms by (simp add: rename_pad_id_def pop_def ebind_def)

lemma arg_empty: "arg Map.empty k d = d"
  by (simp add: arg_def)

lemma arg_Some: "kw k = Some x \<Longrightarrow> arg kw k d = x"
  by (simp add: arg_def)

lemma from_dict_empty: "from_dict d Map.empty = LLaMAHFConfig_init d"
  by (simp add: from_dict_def arg_empty Let_def)

text \<open>
  C7. For a source dictionary that holds \<open>pad_id\<close>, \<open>from_fms_config\<close> called without
  further keywords returns a configuration whose \<open>pad_token_id\<close> is the source's \<open>pad_id\<close>
  and in which every hyperparameter that the source holds under the name of a
  constructor parameter (vocabulary size, embedding dimension, head counts, layer
  count, norm epsilon, growth factor, multiple, activation, dropout, maximal sequence
  length, cache flag) has the source's value.
\<close>

theorem from_fms_config_renames:
  assumes "config_dict ''pad_id'' = Some v"
  shows "\<exists>c. from_fms_config config_dict Map.empty = Inr c \<and>
           pad_token_id c = v \<and>
           (\<forall>x. config_dict ''src_vocab_size'' = Some x \<longrightarrow> src_vocab_size c = x) \<and>
           (\<forall>x. config_dict ''emb_dim'' = Some x \<longrightarrow> emb_dim c = x) \<and>
           (\<forall>x. config_dict ''nheads'' = Some x \<longrightarrow> nheads c = x) \<and>
           (\<forall>x. config_dict ''kvheads'' = Some x \<longrightarrow> kvheads c = x) \<and>
           (\<forall>x. config_dict ''nlayers'' = Some x \<longrightarrow> nlayers c = x) \<and>
           (\<forall>x. config_dict ''norm_eps'' = Some x \<longrightarrow> norm_eps c = x) \<and>
           (\<forall>x. config_dict ''hidden_grow_factor'' = Some x \<longrightarrow> hidden_grow_factor c = x) \<and>
           (\<forall>x. config_dict ''multiple_of'' = Some x \<longrightarrow> multiple_of c = x) \<and>
           (\<forall>x. config_dict ''activation_fn'' = Some x \<longrightarrow> activation_fn c = x) \<and>
           (\<forall>x. config_dict ''p_dropout'' = Some x \<longrightarrow> p_dropout c = x) \<and>
           (\<forall>x. config_dict ''max_expected_seq_len'' = Some x \<longrightarrow> max_expected_seq_len c = x) \<and>
           (\<forall>x. config_dict ''use_cache'' = Some x \<longrightarrow> use_cache c = x)"
proof -
  let ?d = "(config_dict(''pad_id'' := None))(''pad_token_id'' \<mapsto> v)"
  have r: "from_fms_config config_dict Map.empty = Inr (LLaMAHFConfig_init ?d)"
    using assms by (simp add: from_fms_config_def rename_pad_id_Some[of config_dict v] ebind_Inr from_dict_empty)
  have keep: "?d ''src_vocab_size'' = config_dict ''src_vocab_size''"
    "?d ''emb_dim'' = config_dict ''emb_dim''"
    "?d ''nheads'' = config_dict ''nheads''"
    "?d ''kvheads'' = config_dict ''kvheads''"
    "?d ''nlayers'' = config_dict ''nlayers''"
    "?d ''norm_eps'' = config_dict ''norm_eps''"
    "?d ''hidden_grow_factor'' = config_dict ''hidden_grow_factor''"
    "?d ''multiple_of'' = config_dict ''multiple_of''"
    "?d ''activation_fn'' = config_dict ''activation_fn''"
    "?d ''p_dropout'' = config_dict ''p_dropout''"
    "?d ''max_expected_seq_len'' = config_dict ''max_expected_seq_len''"
    "?d ''use_cache'' = config_dict ''use_cache''"
    "?d ''pad_token_id'' = Some v"
    by simp_all
  show ?thesis
    unfolding r by (simp add: LLaMAHFConfig_init_def arg_def keep del: fun_upd_apply)
qed

theorem from_fms_config_renames_witness:
  "ex_config_dict ''pad_id'' = Some (PInt 0) \<and>
   map_sum id pad_token_id (from_fms_config ex_config_dict Map.empty) = Inr (PInt 0) \<and>
   map_sum id src_vocab_size (from_fms_config ex_config_dict Map.empty) = Inr (PInt 256) \<and>
   map_sum id nheads (from_fms_config ex_config_dict Map.empty) = Inr (PInt 2) \<and>
   map_sum id activation_fn (from_fms_config ex_config_dict Map.empty) = Inr (PStr ''swish'') \<and>
   map_sum id use_cache (from_fms_config ex_config_dict Map.empty) = Inr (PBool True)"
proof -
  have p: "ex_config_dict ''pad_id'' = Some (PInt 0)"
    and f: "ex_config_dict ''src_vocab_size'' = Some (PInt 256)"
      "ex_config_dict ''nheads'' = Some (PInt 2)"
      "ex_config_dict ''activation_fn'' = Some (PStr ''swish'')"
    by (simp_all add: ex_config_dict_def)
  from from_fms_config_renames[of ex_config_dict "PInt 0"] p f obtain c where
    c: "from_fms_config ex_config_dict Map.empty = Inr c" "pad_token_id c = PInt 0"
      "src_vocab_size c = PInt 256" "nheads c = PInt 2" "activation_fn c = PStr ''swish''"
    by blast
  have "c = LLaMAHFConfig_init ((ex_config_dict(''pad_id'' := None))(''pad_token_id'' \<mapsto> PInt 0))"
    using c(1) p
    by (simp add: from_fms_config_def rename_pad_id_Some[of ex_config_dict "PInt 0"] ebind_Inr
        from_dict_empty)
  moreover have "ex_config_dict ''use_cache'' = None" by (simp add: ex_config_dict_def)
  ultimately have "use_cache c = PBool True"
    by (simp add: LLaMAHFConfig_init_def arg_def)
  then show ?thesis using p c by simp
qed



text \<open>
  C9. \<open>from_fms_config\<close> raises KeyError when the source dictionary has no key \<open>pad_id\<close>,
  and returns a configuration when it has; a configuration it returns is built from a
  dictionary without \<open>pad_id\<close>, whose \<open>pad_token_id\<close> is the source's \<open>pad_id\<close>.
\<close>

theorem from_fms_config_pad_id_key:
  "(config_dict ''pad_id'' = None \<longrightarrow> from_fms_config config_dict hf_kwargs = Inl KeyError) \<and>
   (config_dict ''pad_id'' \<noteq> None \<longrightarrow> (\<exists>c. from_fms_config config_dict hf_kwargs = Inr c)) \<and>
   (\<forall>c. from_fms_config config_dict hf_kwargs = Inr c \<longrightarrow>
      (\<exists>d. rename_pad_id config_dict = Inr d \<and> d ''pad_id'' = None \<and>
           d ''pad_token_id'' = config_dict ''pad_id'' \<and> c = from_dict d hf_kwargs))"
proof (cases "config_dict ''pad_id''")
  case None
  then show ?thesis
    by (simp add: from_fms_config_def rename_pad_id_None ebind_Inl)
next
  case (Some v)
  then show ?thesis
    by (auto simp: from_fms_config_def rename_pad_id_Some ebind_Inr)
qed

theorem from_fms_config_pad_id_key_witness:
  "(ex_config_dict(''pad_id'' := None)) ''pad_id'' = None \<and>
   from_fms_config (ex_config_dict(''pad_id'' := None)) Map.empty = Inl KeyError \<and>
   from_fms_config ex_config_dict Map.empty = Inr (LLaMAHFConfig_init
     ((ex_config_dict(''pad_id'' := None))(''pad_token_id'' \<mapsto> PInt 0))) \<and>
   ((ex_config_dict(''pad_id'' := None))(''pad_token_id'' \<mapsto> PInt 0)) ''pad_id'' = None"
proof -
  have n: "(ex_config_dict(''pad_id'' := None)) ''pad_id'' = None" by simp
  have a: "from_fms_config (ex_config_dict(''pad_id'' := None)) Map.empty = Inl KeyError"
    using from_fms_config_pad_id_key[of "ex_config_dict(''pad_id'' := None)" Map.empty] n by blast
  have p: "ex_config_dict ''pad_id'' = Some (PInt 0)" by (simp add: ex_config_dict_def)
  have b: "from_fms_config ex_config_dict Map.empty = Inr (LLaMAHFConfig_init
     ((ex_config_dict(''pad_id'' := None))(''pad_token_id'' \<mapsto> PInt 0)))"
    using p by (simp add: from_fms_config_def rename_pad_id_Some[of ex_config_dict "PInt 0"] ebind_Inr from_dict_empty)
  show ?thesis using n a b by simp
qed

section \<open>The claim about \<open>pad_prompt\<close>\<close>

text \<open>
  C10. For \<open>len(prompt) \<le> pad_len\<close>, \<open>pad_prompt\<close> returns a tensor of ids of length
  \<open>pad_len\<close> whose first \<open>pad_len - len(prompt)\<close> elements are the id of \<open>pad_token\<close> and
  whose remaining elements are the prompt; for \<open>len(prompt) = pad_len\<close> it returns the
  prompt.
\<close>

theorem pad_prompt_pads:
  assumes "int (length prompt) \<le> pad_len"
  shows "\<exists>r. pad_prompt convert_tokens_to_ids to_float prompt pad_len pad_token = LongTensor r \<and>
           int (length r) = pad_len \<and>
           take (nat pad_len - length prompt) r
             = replicate (nat pad_len - length prompt) (convert_tokens_to_ids pad_token) \<and>
           drop (nat pad_len - length prompt) r = prompt \<and>
           (int (length prompt) = pad_len \<longrightarrow> r = prompt)"
proof (cases "pad_len - int (length prompt) = 0")
  case True
  then show ?thesis by (simp add: pad_prompt_def)
next
  case False
  with assms have pos: "0 < pad_len - int (length prompt)" by simp
  then have ne: "replicate (nat (pad_len - int (length prompt))) (convert_tokens_to_ids pad_token) \<noteq> []"
    by simp
  have k: "nat pad_len - length prompt = nat (pad_len - int (length prompt))"
    using assms by (simp add: nat_diff_distrib')
  have "pad_prompt convert_tokens_to_ids to_float prompt pad_len pad_token
      = LongTensor (replicate (nat (pad_len - int (length prompt))) (convert_tokens_to_ids pad_token) @ prompt)"
    using False ne by (simp add: pad_prompt_def Let_def)
  then show ?thesis using pos False by (simp add: k)
qed

theorem pad_prompt_pads_witness:
  "int (length [5, 6, 7 :: int]) \<le> 5 \<and>
   pad_prompt (\<lambda>t. if t = ''<unk>'' then 0 else 1) real_of_int [5, 6, 7] 5 ''<unk>''
     = LongTensor [0, 0, 5, 6, 7] \<and>
   pad_prompt (\<lambda>t. if t = ''<unk>'' then 0 else 1) real_of_int [5, 6, 7] 3 ''<unk>''
     = LongTensor [5, 6, 7]"
proof -
  let ?c = "\<lambda>t. if t = ''<unk>'' then 0 else (1::int)"
  have h5: "int (length [5, 6, 7 :: int]) \<le> 5" and h3: "int (length [5, 6, 7 :: int]) \<le> 3"
    by simp_all
  from pad_prompt_pads[OF h5, of ?c real_of_int "''<unk>''"] obtain r where
    r: "pad_prompt ?c real_of_int [5, 6, 7] 5 ''<unk>'' = LongTensor r"
      "take 2 r = replicate 2 0" "drop 2 r = [5, 6, 7]"
    by auto
  have "r = take 2 r @ drop 2 r" by simp
  then have "r = [0, 0, 5, 6, 7]" unfolding r(2,3) by (simp add: numeral_2_eq_2)
  moreover from pad_prompt_pads[OF h3, of ?c real_of_int "''<unk>''"]
  have "pad_prompt ?c real_of_int [5, 6, 7] 3 ''<unk>'' = LongTensor [5, 6, 7]"
    by auto
  ultimately show ?thesis using r(1) by simp
qed

end
